theory Spec2Isabelle
  imports Complex_Main "HOL-Library.AList" "HOL-Library.Log_Nat"
begin

section \<open>Python values and failures\<close>

text \<open>
  The worker is Python: integers are unbounded (\<open>int\<close>), and every failing operation
  raises. Each exception the modelled code can raise is a constructor of \<open>py_error\<close>;
  a function that can raise returns \<open>py_error + 'a\<close> with \<open>Inl\<close> the exception.
  Assertions are taken to be enabled (Python without \<^verbatim>\<open>-O\<close>). \<open>TensorConversionError\<close> stands
  for the exception \<^verbatim>\<open>torch.tensor\<close> raises when a list does not fit the tensor asked for;
  the class of that exception is the library's and is not told apart further.
\<close>

datatype py_error =
    IndexError
  | KeyError
  | TypeError
  | ZeroDivisionError
  | AssertionError
  | ValueError
  | OverflowError
  | TensorConversionError

text \<open>\<^verbatim>\<open>range(n)\<close>: empty when \<open>n \<le> 0\<close>.\<close>

definition py_range :: "int \<Rightarrow> int list" where
  "py_range n = map int [0..<nat n]"

text \<open>\<^verbatim>\<open>xs[i]\<close> on a list: a negative index counts from the end, anything outside raises.\<close>

definition py_index :: "'a list \<Rightarrow> int \<Rightarrow> py_error + 'a" where
  "py_index xs i =
     (if 0 \<le> i \<and> i < int (length xs) then Inr (xs ! nat i)
      else if i < 0 \<and> - int (length xs) \<le> i then Inr (xs ! nat (int (length xs) + i))
      else Inl IndexError)"

text \<open>
  \<^verbatim>\<open>xs[a:b]\<close> with both bounds given: a negative bound counts from the end, and both
  are clipped to the list. \<^verbatim>\<open>xs[:b]\<close> is \<open>py_slice xs 0 b\<close>.
\<close>

definition py_clip :: "nat \<Rightarrow> int \<Rightarrow> nat" where
  "py_clip n i = (if i < 0 then nat (int n + i) else min (nat i) n)"

definition py_slice :: "'a list \<Rightarrow> int \<Rightarrow> int \<Rightarrow> 'a list" where
  "py_slice xs a b =
     (let lo = py_clip (length xs) a;
          hi = py_clip (length xs) b
      in take (hi - lo) (drop lo xs))"

text \<open>\<^verbatim>\<open>d[k]\<close> on a dict, the dict kept as an association list in insertion order.\<close>

definition py_getitem :: "('k \<times> 'v) list \<Rightarrow> 'k \<Rightarrow> py_error + 'v" where
  "py_getitem d k = (case map_of d k of None \<Rightarrow> Inl KeyError | Some v \<Rightarrow> Inr v)"

text \<open>A \<^verbatim>\<open>for\<close> loop whose body may raise: the first exception ends the loop.\<close>

fun for_each :: "('s \<Rightarrow> 'a \<Rightarrow> py_error + 's) \<Rightarrow> 'a list \<Rightarrow> 's \<Rightarrow> py_error + 's" where
  "for_each body [] s = Inr s"
| "for_each body (x # xs) s =
     (case body s x of Inl e \<Rightarrow> Inl e | Inr s' \<Rightarrow> for_each body xs s')"

section \<open>Data model\<close>

text \<open>
  Modelled from the spec: class \<^verbatim>\<open>SequenceData\<close> of \<^verbatim>\<open>vllm.sequence\<close> is used by the worker
  but its declaration is not among the sources. The record has the attributes the worker
  reads: the token ids so far (\<^verbatim>\<open>get_token_ids()\<close>, with \<^verbatim>\<open>get_len()\<close> their number), the
  number of tokens in flight (\<^verbatim>\<open>inflight_length\<close>), the number forwarded in this step
  (\<^verbatim>\<open>running_inflight_tokens\<close>) and the phase flag returned by \<^verbatim>\<open>is_generating()\<close>.
\<close>

record SequenceData =
  token_ids :: "int list"
  inflight_length :: int
  running_inflight_tokens :: int
  generating :: bool

definition get_token_ids :: "SequenceData \<Rightarrow> int list" where
  "get_token_ids sdata = token_ids sdata"

definition get_len :: "SequenceData \<Rightarrow> int" where
  "get_len sdata = int (length (token_ids sdata))"

definition is_generating :: "SequenceData \<Rightarrow> bool" where
  "is_generating sdata = generating sdata"

text \<open>
  Modelled from the spec: class \<^verbatim>\<open>SequenceGroupMetadata\<close> of \<^verbatim>\<open>vllm.sequence\<close> is not among
  the sources either. The record has the attributes the worker reads. The two dicts are
  association lists in insertion order (\<^verbatim>\<open>list(seq_data.keys())\<close> is \<open>map fst\<close>); the
  sampling parameters are passed through untouched, so their type is a parameter.
  \<open>block_tables\<close> is \<open>None\<close> during memory profiling.
\<close>

record 'sp SequenceGroupMetadata =
  is_prompt :: bool
  only_swap :: bool
  seq_data :: "(int \<times> SequenceData) list"
  sampling_params :: 'sp
  block_tables :: "(int \<times> int list) list option"

text \<open>
  The attributes of \<^verbatim>\<open>Worker\<close> that batch assembly and \<^verbatim>\<open>execute_model\<close> read.
  \<open>block_size\<close> and \<open>sliding_window\<close> are \<open>None\<close> until \<^verbatim>\<open>init_cache_engine\<close> sets them;
  \<open>cache_events\<close> are the completion signals of the cache engine, named by numbers.
\<close>

record Worker =
  block_size :: "int option"
  sliding_window :: "int option"
  cache_events :: "nat list"

text \<open>The local variables of \<^verbatim>\<open>_prepare_inputs\<close> that the two passes append to.\<close>

record 'sp locals =
  seq_groups :: "(int list \<times> 'sp) list"
  input_tokens :: "int list"
  input_positions :: "int list"
  slot_mapping :: "int list"
  is_generating_new_token :: "bool list"
  prompt_lens :: "int list"
  max_context_len :: int
  max_num_blocks_per_seq :: int
  context_lens :: "int list"
  generation_block_tables :: "int list list"
  running_query_lens :: "int list"

definition initial_locals :: "'sp locals" where
  "initial_locals =
     \<lparr>seq_groups = [], input_tokens = [], input_positions = [], slot_mapping = [],
      is_generating_new_token = [], prompt_lens = [], max_context_len = 0,
      max_num_blocks_per_seq = 0, context_lens = [], generation_block_tables = [],
      running_query_lens = []\<rparr>"

text \<open>
  \<^verbatim>\<open>InputMetadata\<close> as \<^verbatim>\<open>_prepare_inputs\<close> fills it. A tensor is kept as the list it was
  converted from. The \<^verbatim>\<open>atoms\<close> field comes from the DeepSpeed atom builder, an external
  kernel helper, and is left out.
\<close>

record 'sp InputMetadata =
  im_seq_groups :: "(int list \<times> 'sp) list"
  im_seq_data :: "(int \<times> SequenceData) list"
  im_prompt_lens :: "int list"
  im_slot_mapping :: "int list"
  im_context_lens :: "int list"
  im_max_context_len :: int
  im_block_tables :: "int list list"
  im_running_query_lens :: "int list"
  im_is_generating_new_token :: "bool list"
  im_sliding_window :: "int option"

section \<open>Slot addressing\<close>

text \<open>
  The body of both slot-mapping loops (\<^verbatim>\<open>worker.py\<close> lines 258-262 and 312-316):
  \<^verbatim>\<open>
  block_number = block_table[position // self.block_size]
  block_offset = position % self.block_size
  slot = block_number * self.block_size + block_offset
  \<close>
  \<open>//\<close> and \<open>%\<close> round towards minus infinity, as \<open>div\<close> and \<open>mod\<close> on \<open>int\<close> do;
  a block size still \<open>None\<close> is a \<^verbatim>\<open>TypeError\<close>, a zero one a \<^verbatim>\<open>ZeroDivisionError\<close>.
\<close>

definition compute_slot :: "int option \<Rightarrow> int list \<Rightarrow> int \<Rightarrow> py_error + int" where
  "compute_slot bs block_table position =
     (case bs of
        None \<Rightarrow> Inl TypeError
      | Some b \<Rightarrow>
          if b = 0 then Inl ZeroDivisionError
          else (case py_index block_table (position div b) of
                  Inl e \<Rightarrow> Inl e
                | Inr block_number \<Rightarrow> Inr (block_number * b + position mod b)))"

text \<open>The loop itself: one slot appended to \<open>slot_mapping\<close> per position, in order.\<close>

definition append_slot :: "Worker \<Rightarrow> int list \<Rightarrow> 'sp locals \<Rightarrow> int \<Rightarrow> py_error + 'sp locals" where
  "append_slot w block_table st position =
     (case compute_slot (block_size w) block_table position of
        Inl e \<Rightarrow> Inl e
      | Inr slot \<Rightarrow> Inr (st\<lparr>slot_mapping := slot_mapping st @ [slot]\<rparr>))"

definition slot_loop :: "Worker \<Rightarrow> int list \<Rightarrow> int list \<Rightarrow> 'sp locals \<Rightarrow> py_error + 'sp locals" where
  "slot_loop w block_table positions st = for_each (append_slot w block_table) positions st"

section \<open>Batch assembly\<close>

text \<open>
  One iteration of the prefill loop of \<^verbatim>\<open>_prepare_inputs\<close> (lines 229-262). Only the first
  sequence of the group is read (\<^verbatim>\<open>seq_id = seq_ids[0]\<close>).
\<close>

definition prefill_group ::
  "Worker \<Rightarrow> 'sp locals \<Rightarrow> 'sp SequenceGroupMetadata \<Rightarrow> py_error + 'sp locals" where
  "prefill_group w st g =
     (if \<not> is_prompt g \<or> only_swap g then Inr st
      else
        let seq_ids = map fst (seq_data g);
            st1 = st\<lparr>seq_groups := seq_groups st @ [(seq_ids, sampling_params g)]\<rparr>
        in case py_index seq_ids 0 of
             Inl e \<Rightarrow> Inl e
           | Inr seq_id \<Rightarrow>
               (case py_getitem (seq_data g) seq_id of
                  Inl e \<Rightarrow> Inl e
                | Inr sdata \<Rightarrow>
                    let prompt_len = running_inflight_tokens sdata;
                        prompt_tokens = py_slice (get_token_ids sdata) 0 prompt_len;
                        st2 = st1\<lparr>prompt_lens := prompt_lens st1 @ [prompt_len],
                                  is_generating_new_token :=
                                    is_generating_new_token st1 @ [is_generating sdata],
                                  input_tokens := input_tokens st1 @ prompt_tokens,
                                  input_positions :=
                                    input_positions st1 @ py_range (int (length prompt_tokens))\<rparr>
                    in (case block_tables g of
                          None \<Rightarrow>
                            Inr (st2\<lparr>slot_mapping :=
                                       slot_mapping st2 @ replicate (nat prompt_len) 0\<rparr>)
                        | Some bts \<Rightarrow>
                            (case py_getitem bts seq_id of
                               Inl e \<Rightarrow> Inl e
                             | Inr block_table \<Rightarrow>
                                 slot_loop w block_table (py_range prompt_len) st2))))"

text \<open>
  One iteration of the inner decode loop (lines 285-324), for the sequence \<open>seq_id\<close> of the
  group \<open>g\<close>. \<^verbatim>\<open>hists[-1]\<close> raises on an empty list. The assertion on the sliding window
  stands after the slot loop, so the branch that would cut the block table to the
  window is never taken.
\<close>

definition decode_seq ::
  "Worker \<Rightarrow> 'sp SequenceGroupMetadata \<Rightarrow> 'sp locals \<Rightarrow> int \<Rightarrow> py_error + 'sp locals" where
  "decode_seq w g st seq_id =
     (case py_getitem (seq_data g) seq_id of
        Inl e \<Rightarrow> Inl e
      | Inr sdata \<Rightarrow>
          let qs_to_forward = running_inflight_tokens sdata;
              start_idx = get_len sdata - inflight_length sdata;
              st1 = st\<lparr>input_tokens :=
                         input_tokens st @
                           py_slice (get_token_ids sdata) start_idx (start_idx + qs_to_forward),
                       running_query_lens := running_query_lens st @ [qs_to_forward],
                       is_generating_new_token :=
                         is_generating_new_token st @ [is_generating sdata]\<rparr>;
              last_token_ctx_len = start_idx + qs_to_forward;
              hists = map (\<lambda>i. i + last_token_ctx_len - qs_to_forward + 1)
                        (py_range qs_to_forward);
              positions = map (\<lambda>h. h - 1) hists;
              hists' = (case sliding_window w of
                          None \<Rightarrow> hists
                        | Some sw \<Rightarrow> map (\<lambda>l. min l sw) hists);
              st2 = st1\<lparr>context_lens := context_lens st1 @ [last_token_ctx_len],
                        input_positions := input_positions st1 @ positions\<rparr>
          in (case block_tables g of
                None \<Rightarrow> Inl TypeError
              | Some bts \<Rightarrow>
                  (case py_getitem bts seq_id of
                     Inl e \<Rightarrow> Inl e
                   | Inr block_table \<Rightarrow>
                       (case py_index hists' (- 1) of
                          Inl e \<Rightarrow> Inl e
                        | Inr h \<Rightarrow>
                            let st3 = st2\<lparr>max_context_len := max (max_context_len st2) h,
                                          max_num_blocks_per_seq :=
                                            max (max_num_blocks_per_seq st2)
                                              (int (length block_table))\<rparr>
                            in (case slot_loop w block_table positions st3 of
                                  Inl e \<Rightarrow> Inl e
                                | Inr st4 \<Rightarrow>
                                    (case sliding_window w of
                                       Some sw \<Rightarrow> Inl AssertionError
                                     | None \<Rightarrow>
                                         Inr (st4\<lparr>generation_block_tables :=
                                                    generation_block_tables st4 @
                                                      [block_table]\<rparr>)))))))"

text \<open>One iteration of the outer decode loop (lines 279-324).\<close>

definition decode_group ::
  "Worker \<Rightarrow> 'sp locals \<Rightarrow> 'sp SequenceGroupMetadata \<Rightarrow> py_error + 'sp locals" where
  "decode_group w st g =
     (if is_prompt g \<or> only_swap g then Inr st
      else
        let seq_ids = map fst (seq_data g);
            st1 = st\<lparr>seq_groups := seq_groups st @ [(seq_ids, sampling_params g)]\<rparr>
        in for_each (decode_seq w g) seq_ids st1)"

text \<open>\<^verbatim>\<open>_pad_to_alignment\<close> and \<^verbatim>\<open>_pad_to_max\<close>; \<^verbatim>\<open>[0] * n\<close> is empty for \<open>n \<le> 0\<close>.\<close>

definition pad_to_alignment :: "int list \<Rightarrow> int \<Rightarrow> py_error + int list" where
  "pad_to_alignment x multiple_of =
     (if multiple_of = 0 then Inl ZeroDivisionError
      else Inr (x @ replicate (nat ((- int (length x)) mod multiple_of)) 0))"

definition pad_to_max :: "int list \<Rightarrow> int \<Rightarrow> int list" where
  "pad_to_max x max_len = x @ replicate (nat (max_len - int (length x))) 0"

text \<open>
  The loop that collects the \<^verbatim>\<open>SequenceData\<close> of the step (lines 353-359): every key of a
  group is asserted absent from the dict collected from the groups before it, then the
  group's dict is merged with \<^verbatim>\<open>dict.update\<close>.
\<close>

definition assert_absent ::
  "(int \<times> SequenceData) list \<Rightarrow> unit \<Rightarrow> int \<Rightarrow> py_error + unit" where
  "assert_absent d u k = (if k \<in> fst ` set d then Inl AssertionError else Inr ())"

definition dict_update :: "('k \<times> 'v) list \<Rightarrow> ('k \<times> 'v) list \<Rightarrow> ('k \<times> 'v) list" where
  "dict_update d new = fold (\<lambda>(k, v). AList.update k v) new d"

definition collect_seq_data ::
  "(int \<times> SequenceData) list \<Rightarrow> 'sp SequenceGroupMetadata \<Rightarrow>
     py_error + (int \<times> SequenceData) list" where
  "collect_seq_data d g =
     (if only_swap g then Inr d
      else (case for_each (assert_absent d) (map fst (seq_data g)) () of
              Inl e \<Rightarrow> Inl e
            | Inr u \<Rightarrow> Inr (dict_update d (seq_data g))))"

text \<open>
  \<^verbatim>\<open>torch.tensor(x, dtype=...)\<close> on a list of integers (lines 333-351): every value must fit
  the signed integer type of the given width, \<^verbatim>\<open>torch.long\<close> being 64 bits wide and
  \<^verbatim>\<open>torch.int\<close> 32, otherwise the conversion raises. For a list of lists the rows must also
  have one length. The tensor is kept as the list it was built from; the placement on the
  device is not modelled.
\<close>

definition fits_dtype :: "nat \<Rightarrow> int \<Rightarrow> bool" where
  "fits_dtype bits x = (- (2 ^ (bits - 1)) \<le> x \<and> x < 2 ^ (bits - 1))"

definition torch_tensor :: "nat \<Rightarrow> int list \<Rightarrow> py_error + int list" where
  "torch_tensor bits x =
     (if list_all (fits_dtype bits) x then Inr x else Inl TensorConversionError)"

definition torch_tensor_2d :: "nat \<Rightarrow> int list list \<Rightarrow> py_error + int list list" where
  "torch_tensor_2d bits rows =
     (if list_all (\<lambda>row. length row = length (hd rows)) rows \<and>
         list_all (list_all (fits_dtype bits)) rows
      then Inr rows else Inl TensorConversionError)"

text \<open>
  \<^verbatim>\<open>_prepare_inputs\<close>. \<open>Inr None\<close> is the return \<^verbatim>\<open>None, None, None\<close>; otherwise the padded
  tokens, the padded positions and the metadata. The statements follow the source in its
  order: both passes, the return of the empty batch, the padding, the five conversions to
  tensors, the collection of the sequence data with its assertion, the last assertion.
  The DeepSpeed ragged-batch bookkeeping of lines 361-375, which stands between the
  collection and the last assertion, calls into an external library and is not modelled.
\<close>

definition prepare_inputs ::
  "Worker \<Rightarrow> 'sp SequenceGroupMetadata list \<Rightarrow>
     py_error + (int list \<times> int list \<times> 'sp InputMetadata) option" where
  "prepare_inputs w seq_group_metadata_list =
     (if seq_group_metadata_list = [] then Inr None
      else
        (case for_each (prefill_group w) seq_group_metadata_list initial_locals of
           Inl e \<Rightarrow> Inl e
         | Inr st1 \<Rightarrow>
        (case for_each (decode_group w) seq_group_metadata_list st1 of
           Inl e \<Rightarrow> Inl e
         | Inr st \<Rightarrow>
        if input_tokens st = [] then Inr None
        else
        (case pad_to_alignment (input_tokens st) 8 of
           Inl e \<Rightarrow> Inl e
         | Inr tokens \<Rightarrow>
        (case pad_to_alignment (input_positions st) 8 of
           Inl e \<Rightarrow> Inl e
         | Inr positions \<Rightarrow>
        (case torch_tensor 64 tokens of
           Inl e \<Rightarrow> Inl e
         | Inr tokens_tensor \<Rightarrow>
        (case torch_tensor 64 positions of
           Inl e \<Rightarrow> Inl e
         | Inr positions_tensor \<Rightarrow>
        (case torch_tensor 32 (slot_mapping st) of
           Inl e \<Rightarrow> Inl e
         | Inr slot_mapping_tensor \<Rightarrow>
        (case torch_tensor 32 (context_lens st) of
           Inl e \<Rightarrow> Inl e
         | Inr context_lens_tensor \<Rightarrow>
        (let padded_block_tables =
               map (\<lambda>block_table. pad_to_max block_table (max_num_blocks_per_seq st))
                 (generation_block_tables st)
         in
        (case torch_tensor_2d 32 padded_block_tables of
           Inl e \<Rightarrow> Inl e
         | Inr block_tables_tensor \<Rightarrow>
        (case for_each collect_seq_data seq_group_metadata_list [] of
           Inl e \<Rightarrow> Inl e
         | Inr sd \<Rightarrow>
        if length (is_generating_new_token st) \<noteq> length (seq_groups st)
        then Inl AssertionError
        else
          Inr (Some (tokens_tensor, positions_tensor,
            \<lparr>im_seq_groups = seq_groups st,
             im_seq_data = sd,
             im_prompt_lens = prompt_lens st,
             im_slot_mapping = slot_mapping_tensor,
             im_context_lens = context_lens_tensor,
             im_max_context_len = max_context_len st,
             im_block_tables = block_tables_tensor,
             im_running_query_lens = running_query_lens st,
             im_is_generating_new_token = is_generating_new_token st,
             im_sliding_window = sliding_window w\<rparr>))))))))))))))"

section \<open>Executing a step\<close>

text \<open>
  What \<^verbatim>\<open>execute_model\<close> does to the cache engine and the model is kept as a trace, in the
  order of the calls: \<^verbatim>\<open>cache_engine.swap_out\<close>, \<^verbatim>\<open>cache_engine.swap_in\<close>, \<^verbatim>\<open>event.wait()\<close>
  on one completion signal, and the call of the model with the swap maps it is handed.
\<close>

datatype 'sp effect =
    SwapOut "(int \<times> int) list"
  | SwapIn "(int \<times> int) list"
  | Wait nat
  | ModelCall "int list" "int list" "'sp InputMetadata" "(int \<times> int) list" "(int \<times> int) list"

text \<open>The value returned: the empty dict \<^verbatim>\<open>{}\<close> or what the model returned.\<close>

datatype 'out step_output = EmptyOutput | ModelOutput 'out

text \<open>
  \<^verbatim>\<open>execute_model\<close> (lines 394-457). The model is an opaque callable, a parameter here.
  A non-empty \<^verbatim>\<open>blocks_to_copy\<close> raises before anything else; nothing is issued before
  \<^verbatim>\<open>_prepare_inputs\<close>, so \<^verbatim>\<open>issued_cache_op\<close> is still false and \<^verbatim>\<open>cache_events\<close> still
  \<open>None\<close> when the batch comes back. The result is paired with the trace of the step.
\<close>

definition execute_model ::
  "Worker \<Rightarrow>
   (int list \<Rightarrow> int list \<Rightarrow> 'sp InputMetadata \<Rightarrow> (int \<times> int) list \<Rightarrow> (int \<times> int) list \<Rightarrow> 'out) \<Rightarrow>
   'sp SequenceGroupMetadata list \<Rightarrow> (int \<times> int) list \<Rightarrow> (int \<times> int) list \<Rightarrow>
   (int \<times> int list) list \<Rightarrow> (py_error + 'out step_output) \<times> 'sp effect list" where
  "execute_model w model seq_group_metadata_list blocks_to_swap_in blocks_to_swap_out
       blocks_to_copy =
     (if blocks_to_copy \<noteq> [] then (Inl ValueError, [])
      else
        (case prepare_inputs w seq_group_metadata_list of
           Inl e \<Rightarrow> (Inl e, [])
         | Inr None \<Rightarrow>
             (let tr1 = (if blocks_to_swap_out \<noteq> [] then [SwapOut blocks_to_swap_out] else []);
                  tr2 = tr1 @ (if blocks_to_swap_in \<noteq> [] then [SwapIn blocks_to_swap_in] else []);
                  issued_cache_op = (blocks_to_swap_out \<noteq> [] \<or> blocks_to_swap_in \<noteq> []);
                  tr3 = tr2 @ (if issued_cache_op then map Wait (cache_events w) else [])
              in (Inr EmptyOutput, tr3))
         | Inr (Some (tokens_tensor, positions_tensor, input_metadata)) \<Rightarrow>
             (Inr (ModelOutput
                     (model tokens_tensor positions_tensor input_metadata
                        blocks_to_swap_in blocks_to_swap_out)),
              [ModelCall tokens_tensor positions_tensor input_metadata
                 blocks_to_swap_in blocks_to_swap_out])))"

section \<open>Capacity profiling\<close>

text \<open>
  The synthetic batch of \<^verbatim>\<open>profile_num_available_blocks\<close> (lines 118-131). \<open>seq_len\<close> is
  \<^verbatim>\<open>max_num_batched_tokens // max_num_seqs + (group_id < max_num_batched_tokens % max_num_seqs)\<close>,
  the comparison counted as 0 or 1. The division runs inside \<^verbatim>\<open>range(max_num_seqs)\<close> only,
  so never with a zero divisor.
\<close>

definition profile_seq_len :: "int \<Rightarrow> int \<Rightarrow> int \<Rightarrow> int" where
  "profile_seq_len max_num_batched_tokens max_num_seqs group_id =
     max_num_batched_tokens div max_num_seqs +
       (if group_id < max_num_batched_tokens mod max_num_seqs then 1 else 0)"

text \<open>
  Modelled from the spec: the constructor \<^verbatim>\<open>SequenceData(prompt_token_ids)\<close> is not among the
  sources. A sequence built from a prompt holds that prompt as its token ids; the counters
  and the phase flag it starts with are not told by the sources and are left to the
  parameter \<open>fresh\<close>.
\<close>

definition new_SequenceData :: "(int list \<Rightarrow> SequenceData) \<Rightarrow> int list \<Rightarrow> SequenceData" where
  "new_SequenceData fresh prompt_token_ids = (fresh prompt_token_ids)\<lparr>token_ids := prompt_token_ids\<rparr>"

text \<open>
  The loop that builds the groups: \<^verbatim>\<open>SequenceData([0] * seq_len)\<close>, then
  \<^verbatim>\<open>running_inflight_tokens = inflight_length\<close>, then one prompt group per group id with
  that sequence under the group id and without block tables. \<^verbatim>\<open>only_swap\<close> is not passed to
  \<^verbatim>\<open>SequenceGroupMetadata\<close> and is taken to default to false.
\<close>

definition profile_seqs ::
  "(int list \<Rightarrow> SequenceData) \<Rightarrow> 'sp \<Rightarrow> int \<Rightarrow> int \<Rightarrow> 'sp SequenceGroupMetadata list" where
  "profile_seqs fresh sampling max_num_batched_tokens max_num_seqs =
     map (\<lambda>group_id.
            let seq_len = profile_seq_len max_num_batched_tokens max_num_seqs group_id;
                seq_data0 = new_SequenceData fresh (replicate (nat seq_len) 0);
                sdata = seq_data0\<lparr>running_inflight_tokens := inflight_length seq_data0\<rparr>
            in \<lparr>is_prompt = True, only_swap = False, seq_data = [(group_id, sdata)],
                sampling_params = sampling, block_tables = None\<rparr>)
       (py_range max_num_seqs)"

subsection \<open>Python floats\<close>

text \<open>
  \<^verbatim>\<open>gpu_memory_utilization\<close> is a \<^verbatim>\<open>float\<close>, so the device count of lines 153-155 is
  computed on IEEE 754 binary64 values, each operation rounded to the nearest double, ties
  to the even mantissa. A double is kept by its exact rational value, or is an infinity or
  a NaN. The sign of a zero is not kept: it can only show in a division by zero, and the code
  raises before it divides by zero; \<^verbatim>\<open>int(-0.0)\<close> is 0.
\<close>

datatype double = Finite rat | PosInf | NegInf | NaN

text \<open>The binary exponent of a positive rational: \<open>2 ^ e \<le> a < 2 ^ (e + 1)\<close>.\<close>

definition floor_log2 :: "rat \<Rightarrow> int" where
  "floor_log2 a =
     (if 1 \<le> a then bitlen \<lfloor>a\<rfloor> - 1 else - bitlen (\<lceil>1 / a\<rceil> - 1))"

text \<open>The nearest integer, a tie going to the even one.\<close>

definition round_half_even :: "rat \<Rightarrow> int" where
  "round_half_even q =
     (let f = \<lfloor>q\<rfloor>; d = q - of_int f
      in if d < 1 / 2 then f
         else if 1 / 2 < d then f + 1
         else if even f then f else f + 1)"

text \<open>
  The exponent of the unit in the last place: 53 bits of mantissa, and the exponent of a
  subnormal number held at \<open>- 1022\<close>.
\<close>

definition ulp_exponent :: "rat \<Rightarrow> int" where
  "ulp_exponent a = max (floor_log2 a) (- 1022) - 52"

definition round_magnitude :: "rat \<Rightarrow> rat" where
  "round_magnitude a =
     of_int (round_half_even (a / 2 powi ulp_exponent a)) * 2 powi ulp_exponent a"

text \<open>
  The double nearest to a rational; a magnitude that rounds to \<open>2 ^ 1024\<close> overflows to an
  infinity.
\<close>

definition round_double :: "rat \<Rightarrow> double" where
  "round_double x =
     (if x = 0 then Finite 0
      else if 2 ^ 1024 \<le> round_magnitude \<bar>x\<bar> then (if x < 0 then NegInf else PosInf)
      else Finite (if x < 0 then - round_magnitude \<bar>x\<bar> else round_magnitude \<bar>x\<bar>))"

text \<open>The arithmetic of the machine on doubles: negation, sum, difference, product.\<close>

definition double_neg :: "double \<Rightarrow> double" where
  "double_neg x =
     (case x of Finite a \<Rightarrow> Finite (- a) | PosInf \<Rightarrow> NegInf | NegInf \<Rightarrow> PosInf | NaN \<Rightarrow> NaN)"



















subsection \<open>The block counts\<close>


section \<open>Views of the code used in the proofs\<close>

text \<open>
  The two passes of \<^verbatim>\<open>_prepare_inputs\<close> (lines 228-324) taken together: the locals when the
  function reaches \<^verbatim>\<open>if not input_tokens\<close>, or the exception raised before.
\<close>

definition run_passes ::
  "Worker \<Rightarrow> 'sp SequenceGroupMetadata list \<Rightarrow> py_error + 'sp locals" where
  "run_passes w gs =
     (case for_each (prefill_group w) gs initial_locals of
        Inl e \<Rightarrow> Inl e
      | Inr st1 \<Rightarrow> for_each (decode_group w) gs st1)"

text \<open>
  The condition under which the five conversions to tensors of lines 333-351 all go
  through; the filler of the padded tokens and positions is 0 and always fits.
\<close>

definition tensors_fit :: "'sp locals \<Rightarrow> bool" where
  "tensors_fit st =
     (list_all (fits_dtype 64) (input_tokens st) \<and>
      list_all (fits_dtype 64) (input_positions st) \<and>
      list_all (fits_dtype 32) (slot_mapping st) \<and>
      list_all (fits_dtype 32) (context_lens st) \<and>
      (let rows = map (\<lambda>block_table. pad_to_max block_table (max_num_blocks_per_seq st))
                    (generation_block_tables st)
       in list_all (\<lambda>row. length row = length (hd rows)) rows \<and>
          list_all (list_all (fits_dtype 32)) rows))"

text \<open>
  Bounds on a double, for the proofs: at most and at least a rational (an infinity of the
  right sign counts, a NaN does not), and finite with a magnitude within a bound.
\<close>

definition at_most :: "double \<Rightarrow> rat \<Rightarrow> bool" where
  "at_most x y = (case x of Finite a \<Rightarrow> a \<le> y | NegInf \<Rightarrow> True | _ \<Rightarrow> False)"

definition at_least :: "double \<Rightarrow> rat \<Rightarrow> bool" where
  "at_least x y = (case x of Finite a \<Rightarrow> y \<le> a | PosInf \<Rightarrow> True | _ \<Rightarrow> False)"


text \<open>The slots one slot loop computes, without the locals they are appended to.\<close>

fun slot_list :: "int option \<Rightarrow> int list \<Rightarrow> int list \<Rightarrow> py_error + int list" where
  "slot_list bs block_table [] = Inr []"
| "slot_list bs block_table (p # ps) =
     (case compute_slot bs block_table p of
        Inl e \<Rightarrow> Inl e
      | Inr slot \<Rightarrow>
          (case slot_list bs block_table ps of
             Inl e \<Rightarrow> Inl e
           | Inr slots \<Rightarrow> Inr (slot # slots)))"

section \<open>The contract, in the words of the specification\<close>

text \<open>
  The addressing contract of the specification:
  \<open>slot(logical_position, block_table, block_size) =
    block_table[logical_position / block_size] * block_size + (logical_position mod block_size)\<close>,
  to be compared with \<open>compute_slot\<close>, which is the code.
\<close>

definition spec_slot :: "int \<Rightarrow> int list \<Rightarrow> int \<Rightarrow> int" where
  "spec_slot logical_position block_table bs =
     block_table ! nat (logical_position div bs) * bs + logical_position mod bs"

text \<open>
  What one group contributes to the flat arrays. A prefill group contributes the in-flight
  prompt tokens of its first sequence, \<^verbatim>\<open>get_token_ids()[:running_inflight_tokens]\<close>, at
  positions counted from 0.
\<close>

definition prefill_inflight_tokens :: "'sp SequenceGroupMetadata \<Rightarrow> int list" where
  "prefill_inflight_tokens g =
     (if is_prompt g \<and> \<not> only_swap g
      then (case seq_data g of
              [] \<Rightarrow> []
            | (seq_id, sdata) # rest \<Rightarrow>
                py_slice (token_ids sdata) 0 (running_inflight_tokens sdata))
      else [])"

definition prefill_positions :: "'sp SequenceGroupMetadata \<Rightarrow> int list" where
  "prefill_positions g = py_range (int (length (prefill_inflight_tokens g)))"

text \<open>
  A decode sequence contributes \<^verbatim>\<open>running_inflight_tokens\<close> tokens from
  \<^verbatim>\<open>start_idx = get_len() - inflight_length\<close> on, at the positions \<open>start_idx + i\<close>.
\<close>

definition seq_start_idx :: "SequenceData \<Rightarrow> int" where
  "seq_start_idx sdata = int (length (token_ids sdata)) - inflight_length sdata"

definition seq_inflight_tokens :: "SequenceData \<Rightarrow> int list" where
  "seq_inflight_tokens sdata =
     py_slice (token_ids sdata) (seq_start_idx sdata)
       (seq_start_idx sdata + running_inflight_tokens sdata)"

definition seq_positions :: "SequenceData \<Rightarrow> int list" where
  "seq_positions sdata =
     map (\<lambda>i. seq_start_idx sdata + i) (py_range (running_inflight_tokens sdata))"

definition decode_inflight_tokens :: "'sp SequenceGroupMetadata \<Rightarrow> int list" where
  "decode_inflight_tokens g =
     (if \<not> is_prompt g \<and> \<not> only_swap g
      then concat (map (\<lambda>(seq_id, sdata). seq_inflight_tokens sdata) (seq_data g))
      else [])"

definition decode_positions :: "'sp SequenceGroupMetadata \<Rightarrow> int list" where
  "decode_positions g =
     (if \<not> is_prompt g \<and> \<not> only_swap g
      then concat (map (\<lambda>(seq_id, sdata). seq_positions sdata) (seq_data g))
      else [])"

text \<open>The unpadded batch: every prefill group in order, then every decode sequence in order.\<close>

definition batch_tokens :: "'sp SequenceGroupMetadata list \<Rightarrow> int list" where
  "batch_tokens gs =
     concat (map prefill_inflight_tokens gs) @ concat (map decode_inflight_tokens gs)"

definition batch_positions :: "'sp SequenceGroupMetadata list \<Rightarrow> int list" where
  "batch_positions gs =
     concat (map prefill_positions gs) @ concat (map decode_positions gs)"

text \<open>
  The number of slots one group adds: a prefill group one per token its first sequence
  forwards, a decode group one per token each of its sequences forwards.
\<close>

definition prefill_slot_count :: "'sp SequenceGroupMetadata \<Rightarrow> nat" where
  "prefill_slot_count g =
     (if is_prompt g \<and> \<not> only_swap g
      then (case seq_data g of
              [] \<Rightarrow> 0
            | (seq_id, sdata) # rest \<Rightarrow> nat (running_inflight_tokens sdata))
      else 0)"

definition decode_slot_count :: "'sp SequenceGroupMetadata \<Rightarrow> nat" where
  "decode_slot_count g =
     (if \<not> is_prompt g \<and> \<not> only_swap g
      then sum_list (map (\<lambda>(seq_id, sdata). nat (running_inflight_tokens sdata)) (seq_data g))
      else 0)"

text \<open>
  The counters of a sequence are consistent when the tokens forwarded in this step are
  among the tokens in flight, and those among the tokens of the sequence.
\<close>

definition inflight_within_tokens :: "SequenceData \<Rightarrow> bool" where
  "inflight_within_tokens sdata =
     (0 \<le> running_inflight_tokens sdata \<and>
      running_inflight_tokens sdata \<le> inflight_length sdata \<and>
      inflight_length sdata \<le> int (length (token_ids sdata)))"

text \<open>
  The locals after the appends of one prefill iteration, before its slots are added, and
  after the appends of one decode iteration without a sliding window.
\<close>

definition prefill_appended ::
  "'sp locals \<Rightarrow> 'sp SequenceGroupMetadata \<Rightarrow> SequenceData \<Rightarrow> 'sp locals" where
  "prefill_appended st g sdata =
     st\<lparr>seq_groups := seq_groups st @ [(map fst (seq_data g), sampling_params g)],
        prompt_lens := prompt_lens st @ [running_inflight_tokens sdata],
        is_generating_new_token := is_generating_new_token st @ [generating sdata],
        input_tokens :=
          input_tokens st @ py_slice (token_ids sdata) 0 (running_inflight_tokens sdata),
        input_positions :=
          input_positions st @
            py_range (int (length (py_slice (token_ids sdata) 0 (running_inflight_tokens sdata))))\<rparr>"

definition decode_appended :: "'sp locals \<Rightarrow> SequenceData \<Rightarrow> int list \<Rightarrow> 'sp locals" where
  "decode_appended st sdata block_table =
     st\<lparr>input_tokens := input_tokens st @ seq_inflight_tokens sdata,
        running_query_lens := running_query_lens st @ [running_inflight_tokens sdata],
        is_generating_new_token := is_generating_new_token st @ [generating sdata],
        context_lens :=
          context_lens st @ [seq_start_idx sdata + running_inflight_tokens sdata],
        input_positions := input_positions st @ seq_positions sdata,
        max_context_len :=
          max (max_context_len st) (seq_start_idx sdata + running_inflight_tokens sdata),
        max_num_blocks_per_seq :=
          max (max_num_blocks_per_seq st) (int (length block_table))\<rparr>"

text \<open>
  A clamp of the history length to the window in prefill addressing, as the specification
  words it: the history length \<open>position + 1\<close> cut to the window before it enters the
  contract. It is compared with what the prefill pass computes.
\<close>

definition spec_clamped_slot :: "int \<Rightarrow> int \<Rightarrow> int list \<Rightarrow> int \<Rightarrow> int" where
  "spec_clamped_slot window logical_position block_table bs =
     spec_slot (min (logical_position + 1) window - 1) block_table bs"

text \<open>
  A group that brings no token into the step: a swap-only group, or a prompt group whose
  first sequence forwards no token (and whose block table, when there are block tables,
  is present).
\<close>

definition no_tokens_group :: "'sp SequenceGroupMetadata \<Rightarrow> bool" where
  "no_tokens_group g =
     (only_swap g \<or>
      (is_prompt g \<and>
       (case seq_data g of
          [] \<Rightarrow> False
        | (seq_id, sdata) # rest \<Rightarrow>
            running_inflight_tokens sdata = 0 \<and>
            (case block_tables g of
               None \<Rightarrow> True
             | Some bts \<Rightarrow> map_of bts seq_id \<noteq> None))))"

text \<open>The prompts of the sequences of a list of groups, in the order of the groups.\<close>

definition synthetic_prompts :: "'sp SequenceGroupMetadata list \<Rightarrow> int list list" where
  "synthetic_prompts gs =
     map (\<lambda>(seq_id, sdata). get_token_ids sdata) (concat (map seq_data gs))"


section \<open>Example inputs\<close>

text \<open>
  Scenario A of the specification: one prompt group of 5 tokens, block size 4, the block
  table \<open>[7]\<close>; and the same group with the two blocks it needs.
\<close>

definition worker_bs4 :: Worker where
  "worker_bs4 = \<lparr>block_size = Some 4, sliding_window = None, cache_events = [0, 1]\<rparr>"

definition five_tokens :: SequenceData where
  "five_tokens =
     \<lparr>token_ids = [11, 12, 13, 14, 15], inflight_length = 5,
      running_inflight_tokens = 5, generating = False\<rparr>"

definition scenario_a :: "unit SequenceGroupMetadata" where
  "scenario_a =
     \<lparr>is_prompt = True, only_swap = False, seq_data = [(0, five_tokens)],
      sampling_params = (), block_tables = Some [(0, [7])]\<rparr>"

definition prompt_two_blocks :: "unit SequenceGroupMetadata" where
  "prompt_two_blocks =
     \<lparr>is_prompt = True, only_swap = False, seq_data = [(0, five_tokens)],
      sampling_params = (), block_tables = Some [(0, [7, 9])]\<rparr>"

text \<open>A decode group: sequence 1 has 5 tokens, the last 2 in flight, and two blocks.\<close>

definition two_in_flight :: SequenceData where
  "two_in_flight =
     \<lparr>token_ids = [21, 22, 23, 24, 25], inflight_length = 2,
      running_inflight_tokens = 2, generating = True\<rparr>"

definition decode_two_blocks :: "unit SequenceGroupMetadata" where
  "decode_two_blocks =
     \<lparr>is_prompt = False, only_swap = False, seq_data = [(1, two_in_flight)],
      sampling_params = (), block_tables = Some [(1, [3, 5])]\<rparr>"

definition decode_one_block :: "unit SequenceGroupMetadata" where
  "decode_one_block =
     \<lparr>is_prompt = False, only_swap = False, seq_data = [(1, two_in_flight)],
      sampling_params = (), block_tables = Some [(1, [3])]\<rparr>"

text \<open>A prefill group and a decode group in one step, and the batch assembled from them.\<close>

definition mixed_batch :: "unit SequenceGroupMetadata list" where
  "mixed_batch = [prompt_two_blocks, decode_two_blocks]"

definition mixed_batch_metadata :: "unit InputMetadata" where
  "mixed_batch_metadata =
     \<lparr>im_seq_groups = [([0], ()), ([1], ())],
      im_seq_data = [(0, five_tokens), (1, two_in_flight)],
      im_prompt_lens = [5],
      im_slot_mapping = [28, 29, 30, 31, 36, 15, 20],
      im_context_lens = [5], im_max_context_len = 5,
      im_block_tables = [[3, 5]], im_running_query_lens = [2],
      im_is_generating_new_token = [False, True],
      im_sliding_window = None\<rparr>"

text \<open>A profiling group: no block tables, and a worker whose cache engine is not set up yet.\<close>

definition worker_unset :: Worker where
  "worker_unset = \<lparr>block_size = None, sliding_window = None, cache_events = []\<rparr>"

definition three_zeros :: SequenceData where
  "three_zeros =
     \<lparr>token_ids = [0, 0, 0], inflight_length = 3, running_inflight_tokens = 3,
      generating = False\<rparr>"

definition profiling_group :: "unit SequenceGroupMetadata" where
  "profiling_group =
     \<lparr>is_prompt = True, only_swap = False, seq_data = [(0, three_zeros)],
      sampling_params = (), block_tables = None\<rparr>"

definition profiling_metadata :: "unit InputMetadata" where
  "profiling_metadata =
     \<lparr>im_seq_groups = [([0], ())],
      im_seq_data = [(0, three_zeros)],
      im_prompt_lens = [3], im_slot_mapping = [0, 0, 0],
      im_context_lens = [], im_max_context_len = 0,
      im_block_tables = [], im_running_query_lens = [],
      im_is_generating_new_token = [False],
      im_sliding_window = None\<rparr>"

text \<open>
  A prompt group and a decode group whose sequence forwards no token in this step, a
  swap-only group, a worker with a sliding window of 2 and the batch it assembles from the
  five-token prompt, and a model that returns nothing.
\<close>

definition idle_sequence :: SequenceData where
  "idle_sequence =
     \<lparr>token_ids = [11, 12], inflight_length = 0, running_inflight_tokens = 0,
      generating = False\<rparr>"

definition idle_prompt :: "unit SequenceGroupMetadata" where
  "idle_prompt =
     \<lparr>is_prompt = True, only_swap = False, seq_data = [(0, idle_sequence)],
      sampling_params = (), block_tables = None\<rparr>"

definition idle_decode :: "unit SequenceGroupMetadata" where
  "idle_decode =
     \<lparr>is_prompt = False, only_swap = False, seq_data = [(1, idle_sequence)],
      sampling_params = (), block_tables = Some [(1, [3])]\<rparr>"

definition swap_only_group :: "unit SequenceGroupMetadata" where
  "swap_only_group =
     \<lparr>is_prompt = False, only_swap = True, seq_data = [(2, two_in_flight)],
      sampling_params = (), block_tables = Some [(2, [3, 5])]\<rparr>"

definition worker_window2 :: Worker where
  "worker_window2 = \<lparr>block_size = Some 4, sliding_window = Some 2, cache_events = [0, 1]\<rparr>"

definition windowed_prompt_metadata :: "unit InputMetadata" where
  "windowed_prompt_metadata =
     \<lparr>im_seq_groups = [([0], ())],
      im_seq_data = [(0, five_tokens)],
      im_prompt_lens = [5],
      im_slot_mapping = [28, 29, 30, 31, 36],
      im_context_lens = [], im_max_context_len = 0,
      im_block_tables = [], im_running_query_lens = [],
      im_is_generating_new_token = [False],
      im_sliding_window = Some 2\<rparr>"

definition unit_model ::
  "int list \<Rightarrow> int list \<Rightarrow> unit InputMetadata \<Rightarrow> (int \<times> int) list \<Rightarrow> (int \<times> int) list \<Rightarrow> unit" where
  "unit_model tokens positions metadata swap_in swap_out = ()"

text \<open>
  A prompt group with two sequences that share the five-token prompt, as a request for two
  samples of one prompt gives, and the batch assembled from it; a decode group with two
  sequences.
\<close>

definition two_seq_prompt :: "unit SequenceGroupMetadata" where
  "two_seq_prompt =
     \<lparr>is_prompt = True, only_swap = False,
      seq_data = [(0, five_tokens), (1, five_tokens)],
      sampling_params = (), block_tables = Some [(0, [7, 9]), (1, [3, 5])]\<rparr>"

definition two_seq_prompt_metadata :: "unit InputMetadata" where
  "two_seq_prompt_metadata =
     \<lparr>im_seq_groups = [([0, 1], ())],
      im_seq_data = [(0, five_tokens), (1, five_tokens)],
      im_prompt_lens = [5],
      im_slot_mapping = [28, 29, 30, 31, 36],
      im_context_lens = [], im_max_context_len = 0,
      im_block_tables = [], im_running_query_lens = [],
      im_is_generating_new_token = [False],
      im_sliding_window = None\<rparr>"

definition two_seq_decode :: "unit SequenceGroupMetadata" where
  "two_seq_decode =
     \<lparr>is_prompt = False, only_swap = False,
      seq_data = [(1, two_in_flight), (2, two_in_flight)],
      sampling_params = (), block_tables = Some [(1, [3, 5]), (2, [4, 6])]\<rparr>"

text \<open>
  A prompt group whose sequence claims 7 tokens in flight while it has 5, and the batch
  assembled from it; a prompt group whose only token does not fit 64 bits.
\<close>

definition seven_of_five :: SequenceData where
  "seven_of_five =
     \<lparr>token_ids = [11, 12, 13, 14, 15], inflight_length = 7,
      running_inflight_tokens = 7, generating = False\<rparr>"

definition overrun_prompt :: "unit SequenceGroupMetadata" where
  "overrun_prompt =
     \<lparr>is_prompt = True, only_swap = False, seq_data = [(0, seven_of_five)],
      sampling_params = (), block_tables = Some [(0, [7, 9])]\<rparr>"

definition overrun_metadata :: "unit InputMetadata" where
  "overrun_metadata =
     \<lparr>im_seq_groups = [([0], ())],
      im_seq_data = [(0, seven_of_five)],
      im_prompt_lens = [7],
      im_slot_mapping = [28, 29, 30, 31, 36, 37, 38],
      im_context_lens = [], im_max_context_len = 0,
      im_block_tables = [], im_running_query_lens = [],
      im_is_generating_new_token = [False],
      im_sliding_window = None\<rparr>"

definition wide_token :: SequenceData where
  "wide_token =
     \<lparr>token_ids = [9223372036854775808], inflight_length = 1,
      running_inflight_tokens = 1, generating = False\<rparr>"

definition wide_token_prompt :: "unit SequenceGroupMetadata" where
  "wide_token_prompt =
     \<lparr>is_prompt = True, only_swap = False, seq_data = [(0, wide_token)],
      sampling_params = (), block_tables = Some [(0, [7])]\<rparr>"

text \<open>A constructor for the profiling examples: nothing is in flight before the step.\<close>

definition fresh_prompt_sequence :: "int list \<Rightarrow> SequenceData" where
  "fresh_prompt_sequence prompt =
     \<lparr>token_ids = [], inflight_length = int (length prompt), running_inflight_tokens = 0,
      generating = False\<rparr>"


section \<open>Python lists, loops and the slot loop\<close>

lemma py_index_in_range:
  "0 \<le> i \<Longrightarrow> i < int (length xs) \<Longrightarrow> py_index xs i = Inr (xs ! nat i)"
  by (simp add: py_index_def Let_def)

lemma py_index_too_big:
  "int (length xs) \<le> i \<Longrightarrow> py_index xs i = Inl IndexError"
  by (simp add: py_index_def Let_def)

lemma py_index_error: "py_index xs i = Inl e \<Longrightarrow> e = IndexError"
  by (simp add: py_index_def Let_def split: if_splits)

lemma compute_slot_in_range:
  "b \<noteq> 0 \<Longrightarrow> 0 \<le> p div b \<Longrightarrow> p div b < int (length t) \<Longrightarrow>
     compute_slot (Some b) t p = Inr (t ! nat (p div b) * b + p mod b)"
  by (simp add: compute_slot_def py_index_in_range)

lemma compute_slot_too_big:
  "b \<noteq> 0 \<Longrightarrow> int (length t) \<le> p div b \<Longrightarrow> compute_slot (Some b) t p = Inl IndexError"
  by (simp add: compute_slot_def py_index_too_big)

lemma compute_slot_error:
  "b \<noteq> 0 \<Longrightarrow> compute_slot (Some b) t p = Inl e \<Longrightarrow> e = IndexError"
  by (auto simp: compute_slot_def split: sum.splits dest: py_index_error)

lemma slot_loop_Nil: "slot_loop w t [] st = Inr st"
  by (simp add: slot_loop_def)

lemma slot_loop_Cons:
  "slot_loop w t (p # ps) st =
     (case compute_slot (block_size w) t p of
        Inl e \<Rightarrow> Inl e
      | Inr slot \<Rightarrow> slot_loop w t ps (st\<lparr>slot_mapping := slot_mapping st @ [slot]\<rparr>))"
  by (simp add: slot_loop_def append_slot_def split: sum.splits)

lemma slot_loop_in_range:
  "block_size w = Some b \<Longrightarrow> b \<noteq> 0 \<Longrightarrow>
   \<forall>p\<in>set ps. 0 \<le> p div b \<and> p div b < int (length t) \<Longrightarrow>
   slot_loop w t ps st =
     Inr (st\<lparr>slot_mapping := slot_mapping st @ map (\<lambda>p. t ! nat (p div b) * b + p mod b) ps\<rparr>)"
proof (induction ps arbitrary: st)
  case Nil
  then show ?case by (simp add: slot_loop_Nil)
next
  case (Cons p ps)
  then show ?case by (simp add: slot_loop_Cons compute_slot_in_range)
qed

lemma slot_loop_too_big:
  "block_size w = Some b \<Longrightarrow> b \<noteq> 0 \<Longrightarrow>
   \<exists>p\<in>set ps. int (length t) \<le> p div b \<Longrightarrow>
   slot_loop w t ps st = Inl IndexError"
proof (induction ps arbitrary: st)
  case Nil
  then show ?case by simp
next
  case (Cons p ps)
  show ?case
  proof (cases "compute_slot (Some b) t p")
    case (Inl e)
    with Cons.prems show ?thesis
      by (simp add: slot_loop_Cons compute_slot_error)
  next
    case (Inr slot)
    with Cons.prems have "\<not> int (length t) \<le> p div b"
      by (auto simp: compute_slot_too_big)
    with Cons.prems have "\<exists>p\<in>set ps. int (length t) \<le> p div b" by auto
    with Cons.IH [OF Cons.prems(1,2)] Inr Cons.prems(1) show ?thesis
      by (simp add: slot_loop_Cons)
  qed
qed

lemma slot_loop_frame:
  "slot_loop w t ps st = Inr st' \<Longrightarrow>
   \<exists>slots. length slots = length ps \<and> st' = st\<lparr>slot_mapping := slot_mapping st @ slots\<rparr>"
proof (induction ps arbitrary: st)
  case Nil
  then show ?case by (simp add: slot_loop_Nil)
next
  case (Cons p ps)
  from Cons.prems obtain slot where
    s: "compute_slot (block_size w) t p = Inr slot" and
    r: "slot_loop w t ps (st\<lparr>slot_mapping := slot_mapping st @ [slot]\<rparr>) = Inr st'"
    by (auto simp: slot_loop_Cons split: sum.splits)
  from Cons.IH [OF r] obtain slots where
    "length slots = length ps"
    "st' = st\<lparr>slot_mapping := slot_mapping st @ [slot]\<rparr>
             \<lparr>slot_mapping := slot_mapping (st\<lparr>slot_mapping := slot_mapping st @ [slot]\<rparr>) @ slots\<rparr>"
    by blast
  then have "length (slot # slots) = length (p # ps) \<and>
             st' = st\<lparr>slot_mapping := slot_mapping st @ (slot # slots)\<rparr>"
    by simp
  then show ?case by blast
qed

lemma for_each_append:
  assumes "\<And>s x s'. x \<in> set xs \<Longrightarrow> body s x = Inr s' \<Longrightarrow> proj s' = proj s @ contrib x"
    and "for_each body xs s = Inr s'"
  shows "proj s' = proj s @ concat (map contrib xs)"
  using assms
proof (induction xs arbitrary: s)
  case Nil
  then show ?case by simp
next
  case (Cons x xs)
  from Cons.prems(2) obtain s1 where
    b: "body s x = Inr s1" and r: "for_each body xs s1 = Inr s'"
    by (auto split: sum.splits)
  have "proj s1 = proj s @ contrib x"
    using Cons.prems(1) [OF _ b] by simp
  moreover have "proj s' = proj s1 @ concat (map contrib xs)"
    using Cons.IH [OF _ r] Cons.prems(1) by simp
  ultimately show ?case by simp
qed

lemma for_each_invariant:
  assumes "\<And>s x s'. x \<in> set xs \<Longrightarrow> I s \<Longrightarrow> body s x = Inr s' \<Longrightarrow> I s'"
    and "I s" and "for_each body xs s = Inr s'"
  shows "I s'"
  using assms
proof (induction xs arbitrary: s)
  case Nil
  then show ?case by simp
next
  case (Cons x xs)
  from Cons.prems(3) obtain s1 where
    b: "body s x = Inr s1" and r: "for_each body xs s1 = Inr s'"
    by (auto split: sum.splits)
  have s1: "I s1" using Cons.prems(1) [OF _ Cons.prems(2) b] by simp
  show ?case
    by (rule Cons.IH [OF _ s1 r]) (rule Cons.prems(1), simp_all)
qed

lemma prefill_group_skip:
  "\<not> is_prompt g \<or> only_swap g \<Longrightarrow> prefill_group w st g = Inr st"
  by (simp add: prefill_group_def)

lemma prefill_group_no_seq:
  "is_prompt g \<Longrightarrow> \<not> only_swap g \<Longrightarrow> seq_data g = [] \<Longrightarrow> prefill_group w st g = Inl IndexError"
  by (simp add: prefill_group_def py_index_def)

lemma prefill_group_first:
  assumes "is_prompt g" "\<not> only_swap g" "seq_data g = (seq_id, sdata) # rest"
  shows "prefill_group w st g =
     (case block_tables g of
        None \<Rightarrow>
          Inr ((prefill_appended st g sdata)
                 \<lparr>slot_mapping := slot_mapping st @ replicate (nat (running_inflight_tokens sdata)) 0\<rparr>)
      | Some bts \<Rightarrow>
          (case py_getitem bts seq_id of
             Inl e \<Rightarrow> Inl e
           | Inr block_table \<Rightarrow>
               slot_loop w block_table (py_range (running_inflight_tokens sdata))
                 (prefill_appended st g sdata)))"
  using assms
  by (simp add: prefill_group_def py_index_def py_getitem_def Let_def prefill_appended_def
      get_token_ids_def is_generating_def split: option.splits sum.splits)

lemma prefill_group_result:
  assumes "prefill_group w st g = Inr st'"
  shows "input_tokens st' = input_tokens st @ prefill_inflight_tokens g"
    and "input_positions st' =
           input_positions st @ py_range (int (length (prefill_inflight_tokens g)))"
    and "generation_block_tables st' = generation_block_tables st"
    and "max_num_blocks_per_seq st' = max_num_blocks_per_seq st"
proof -
  have "input_tokens st' = input_tokens st @ prefill_inflight_tokens g \<and>
        input_positions st' =
           input_positions st @ py_range (int (length (prefill_inflight_tokens g))) \<and>
        generation_block_tables st' = generation_block_tables st \<and>
        max_num_blocks_per_seq st' = max_num_blocks_per_seq st"
  proof (cases "is_prompt g \<and> \<not> only_swap g")
    case False
    with assms show ?thesis
      by (auto simp: prefill_group_skip prefill_inflight_tokens_def py_range_def)
  next
    case True
    show ?thesis
    proof (cases "seq_data g")
      case Nil
      with True assms show ?thesis by (simp add: prefill_group_no_seq)
    next
      case (Cons a rest)
      obtain seq_id sdata where a: "a = (seq_id, sdata)" by (cases a)
      note eq = prefill_group_first [of g seq_id sdata rest w st]
      have pt: "prefill_inflight_tokens g =
                  py_slice (token_ids sdata) 0 (running_inflight_tokens sdata)"
        using True Cons a by (simp add: prefill_inflight_tokens_def)
      show ?thesis
      proof (cases "block_tables g")
        case None
        with eq True Cons a assms pt show ?thesis
          by (auto simp: prefill_appended_def)
      next
        case (Some bts)
        with eq True Cons a assms obtain bt where
          "slot_loop w bt (py_range (running_inflight_tokens sdata))
             (prefill_appended st g sdata) = Inr st'"
          by (auto split: sum.splits)
        from slot_loop_frame [OF this] pt show ?thesis
          by (auto simp: prefill_appended_def)
      qed
    qed
  qed
  then show "input_tokens st' = input_tokens st @ prefill_inflight_tokens g"
    and "input_positions st' =
           input_positions st @ py_range (int (length (prefill_inflight_tokens g)))"
    and "generation_block_tables st' = generation_block_tables st"
    and "max_num_blocks_per_seq st' = max_num_blocks_per_seq st"
    by simp_all
qed

lemma py_index_last:
  "xs \<noteq> [] \<Longrightarrow> py_index xs (- 1) = Inr (last xs)"
  by (cases xs rule: rev_cases) (auto simp: py_index_def Let_def nth_append)

lemma py_index_last_empty: "py_index [] (- 1) = Inl IndexError"
  by (simp add: py_index_def)

lemma py_range_empty: "n \<le> 0 \<Longrightarrow> py_range n = []"
  by (simp add: py_range_def)

lemma py_range_nonempty: "0 < n \<Longrightarrow> py_range n \<noteq> []"
  by (simp add: py_range_def)

lemma last_py_range: "0 < n \<Longrightarrow> last (py_range n) = n - 1"
proof -
  assume "0 < n"
  then obtain m where m: "nat n = Suc m" by (cases "nat n") auto
  then have "last (py_range n) = int m" by (simp add: py_range_def)
  with m show ?thesis by linarith
qed

lemma length_py_range: "length (py_range n) = nat n"
  by (simp add: py_range_def)

lemma decode_position_fun: "(\<lambda>h. h - 1) \<circ> (\<lambda>i. i + s + 1) = (+) (s::int)"
  by (auto simp: fun_eq_iff)

lemma decode_seq_no_window:
  assumes "map_of (seq_data g) seq_id = Some sdata"
    and "block_tables g = Some bts" and "map_of bts seq_id = Some block_table"
    and "0 < running_inflight_tokens sdata" and "sliding_window w = None"
  shows "decode_seq w g st seq_id =
     (case slot_loop w block_table (seq_positions sdata) (decode_appended st sdata block_table) of
        Inl e \<Rightarrow> Inl e
      | Inr st4 \<Rightarrow>
          Inr (st4\<lparr>generation_block_tables := generation_block_tables st4 @ [block_table]\<rparr>))"
proof -
  let ?qs = "running_inflight_tokens sdata"
  let ?hists = "map (\<lambda>i. i + (seq_start_idx sdata + ?qs) - ?qs + 1) (py_range ?qs)"
  have ne: "?hists \<noteq> []" using assms(4) by (simp add: py_range_nonempty)
  have "last ?hists = seq_start_idx sdata + ?qs"
    using assms(4) by (simp add: last_map py_range_nonempty last_py_range)
  with ne have h: "py_index ?hists (- 1) = Inr (seq_start_idx sdata + ?qs)"
    by (simp add: py_index_last)
  show ?thesis
    using assms(1,2,3,5) h
    by (simp add: decode_seq_def py_getitem_def Let_def get_len_def get_token_ids_def
        is_generating_def seq_start_idx_def [symmetric] decode_position_fun
        decode_appended_def seq_positions_def seq_inflight_tokens_def
        split: sum.splits)
qed

lemma decode_seq_Inr:
  assumes "decode_seq w g st seq_id = Inr st'"
  shows "\<exists>sdata bts block_table.
           map_of (seq_data g) seq_id = Some sdata \<and> block_tables g = Some bts \<and>
           map_of bts seq_id = Some block_table \<and>
           0 < running_inflight_tokens sdata \<and> sliding_window w = None"
proof -
  from assms obtain sdata where sd: "map_of (seq_data g) seq_id = Some sdata"
    by (auto simp: decode_seq_def py_getitem_def split: option.splits)
  from assms sd obtain bts where bts: "block_tables g = Some bts"
    by (auto simp: decode_seq_def py_getitem_def Let_def split: option.splits)
  from assms sd bts obtain block_table where bt: "map_of bts seq_id = Some block_table"
    by (auto simp: decode_seq_def py_getitem_def Let_def split: option.splits)
  have sw: "sliding_window w = None"
    using assms sd bts bt
    by (auto simp: decode_seq_def py_getitem_def Let_def split: option.splits sum.splits)
  have "0 < running_inflight_tokens sdata"
  proof (rule ccontr)
    assume "\<not> 0 < running_inflight_tokens sdata"
    then have "py_range (running_inflight_tokens sdata) = []"
      by (simp add: py_range_empty)
    with assms sd bts bt sw show False
      by (simp add: decode_seq_def py_getitem_def Let_def py_index_last_empty)
  qed
  with sd bts bt sw show ?thesis by blast
qed

lemma decode_seq_result:
  assumes "decode_seq w g st seq_id = Inr st'"
  shows "\<exists>sdata. map_of (seq_data g) seq_id = Some sdata \<and>
           input_tokens st' = input_tokens st @ seq_inflight_tokens sdata \<and>
           input_positions st' = input_positions st @ seq_positions sdata \<and>
           length (slot_mapping st') =
             length (slot_mapping st) + nat (running_inflight_tokens sdata)"
proof -
  from decode_seq_Inr [OF assms] obtain sdata bts block_table where
    h: "map_of (seq_data g) seq_id = Some sdata" "block_tables g = Some bts"
       "map_of bts seq_id = Some block_table"
       "0 < running_inflight_tokens sdata" "sliding_window w = None"
    by blast
  from assms decode_seq_no_window [OF h, of st] obtain st4 where
    l: "slot_loop w block_table (seq_positions sdata) (decode_appended st sdata block_table) =
          Inr st4"
    and e: "st' = st4\<lparr>generation_block_tables := generation_block_tables st4 @ [block_table]\<rparr>"
    by (auto split: sum.splits)
  from slot_loop_frame [OF l] obtain slots where
    "length slots = length (seq_positions sdata)"
    "st4 = (decode_appended st sdata block_table)
             \<lparr>slot_mapping := slot_mapping (decode_appended st sdata block_table) @ slots\<rparr>"
    by blast
  with e h(1) show ?thesis
    by (auto simp: decode_appended_def seq_positions_def length_py_range)
qed

lemma map_lookup_keys:
  "distinct (map fst l) \<Longrightarrow>
   map ((\<lambda>k. f (the (map_of l k))) \<circ> fst) l = map (\<lambda>(k, v). f v) l"
  by (induction l) (auto simp: image_iff)

lemma decode_group_skip:
  "is_prompt g \<or> only_swap g \<Longrightarrow> decode_group w st g = Inr st"
  by (simp add: decode_group_def)

lemma decode_group_run:
  "\<not> is_prompt g \<Longrightarrow> \<not> only_swap g \<Longrightarrow>
   decode_group w st g =
     for_each (decode_seq w g) (map fst (seq_data g))
       (st\<lparr>seq_groups := seq_groups st @ [(map fst (seq_data g), sampling_params g)]\<rparr>)"
  by (simp add: decode_group_def Let_def)

lemma decode_group_result:
  assumes "decode_group w st g = Inr st'" and "distinct (map fst (seq_data g))"
  shows "input_tokens st' = input_tokens st @ decode_inflight_tokens g"
    and "input_positions st' = input_positions st @ decode_positions g"
proof -
  show "input_tokens st' = input_tokens st @ decode_inflight_tokens g"
  proof (cases "is_prompt g \<or> only_swap g")
    case True
    with assms show ?thesis
      by (auto simp: decode_group_skip decode_inflight_tokens_def)
  next
    case False
    let ?st1 = "st\<lparr>seq_groups := seq_groups st @ [(map fst (seq_data g), sampling_params g)]\<rparr>"
    from False assms have r:
      "for_each (decode_seq w g) (map fst (seq_data g)) ?st1 = Inr st'"
      by (simp add: decode_group_run)
    have "input_tokens st' = input_tokens ?st1 @
            concat (map (\<lambda>k. seq_inflight_tokens (the (map_of (seq_data g) k)))
              (map fst (seq_data g)))"
    proof (rule for_each_append [OF _ r])
      fix s x s' assume "decode_seq w g s x = Inr s'"
      from decode_seq_result [OF this]
      show "input_tokens s' =
              input_tokens s @ seq_inflight_tokens (the (map_of (seq_data g) x))"
        by auto
    qed
    with False assms(2) show ?thesis
      by (simp add: decode_inflight_tokens_def map_lookup_keys)
  qed
  show "input_positions st' = input_positions st @ decode_positions g"
  proof (cases "is_prompt g \<or> only_swap g")
    case True
    with assms show ?thesis
      by (auto simp: decode_group_skip decode_positions_def)
  next
    case False
    let ?st1 = "st\<lparr>seq_groups := seq_groups st @ [(map fst (seq_data g), sampling_params g)]\<rparr>"
    from False assms have r:
      "for_each (decode_seq w g) (map fst (seq_data g)) ?st1 = Inr st'"
      by (simp add: decode_group_run)
    have "input_positions st' = input_positions ?st1 @
            concat (map (\<lambda>k. seq_positions (the (map_of (seq_data g) k)))
              (map fst (seq_data g)))"
    proof (rule for_each_append [OF _ r])
      fix s x s' assume "decode_seq w g s x = Inr s'"
      from decode_seq_result [OF this]
      show "input_positions s' =
              input_positions s @ seq_positions (the (map_of (seq_data g) x))"
        by auto
    qed
    with False assms(2) show ?thesis
      by (simp add: decode_positions_def map_lookup_keys)
  qed
qed

lemma prefill_pass_result:
  assumes "for_each (prefill_group w) gs st = Inr st'"
  shows "input_tokens st' = input_tokens st @ concat (map prefill_inflight_tokens gs)"
    and "input_positions st' = input_positions st @ concat (map prefill_positions gs)"
proof -
  show "input_tokens st' = input_tokens st @ concat (map prefill_inflight_tokens gs)"
    by (rule for_each_append [OF _ assms]) (rule prefill_group_result(1))
  show "input_positions st' = input_positions st @ concat (map prefill_positions gs)"
    unfolding prefill_positions_def
    by (rule for_each_append [OF _ assms]) (rule prefill_group_result(2))
qed

lemma decode_pass_result:
  assumes "for_each (decode_group w) gs st = Inr st'"
    and "\<forall>g\<in>set gs. distinct (map fst (seq_data g))"
  shows "input_tokens st' = input_tokens st @ concat (map decode_inflight_tokens gs)"
    and "input_positions st' = input_positions st @ concat (map decode_positions gs)"
proof -
  show "input_tokens st' = input_tokens st @ concat (map decode_inflight_tokens gs)"
  proof (rule for_each_append [OF _ assms(1)])
    fix s x s' assume "x \<in> set gs" "decode_group w s x = Inr s'"
    with assms(2) show "input_tokens s' = input_tokens s @ decode_inflight_tokens x"
      by (simp add: decode_group_result(1))
  qed
  show "input_positions st' = input_positions st @ concat (map decode_positions gs)"
  proof (rule for_each_append [OF _ assms(1)])
    fix s x s' assume "x \<in> set gs" "decode_group w s x = Inr s'"
    with assms(2) show "input_positions s' = input_positions s @ decode_positions x"
      by (simp add: decode_group_result(2))
  qed
qed

lemma fits_dtype_zero: "fits_dtype bits 0"
  by (simp add: fits_dtype_def)

lemma list_all_fits_padded:
  "list_all (fits_dtype bits) (x @ replicate n 0) = list_all (fits_dtype bits) x"
  by (induction n) (simp_all add: fits_dtype_zero list_all_iff)

lemma list_all_fits_filler: "list_all (fits_dtype bits) (replicate n 0)"
  by (induction n) (simp_all add: fits_dtype_zero)

lemma torch_tensor_Inr: "torch_tensor bits x = Inr y \<Longrightarrow> y = x"
  by (simp add: torch_tensor_def split: if_splits)

lemma torch_tensor_2d_Inr: "torch_tensor_2d bits x = Inr y \<Longrightarrow> y = x"
  by (simp add: torch_tensor_2d_def split: if_splits)

lemma prepare_inputs_Some:
  assumes "prepare_inputs w gs = Inr (Some (toks, poss, md))"
  shows "\<exists>st1 st. for_each (prefill_group w) gs initial_locals = Inr st1 \<and>
           for_each (decode_group w) gs st1 = Inr st \<and>
           input_tokens st \<noteq> [] \<and>
           toks = input_tokens st @
                    replicate (nat ((- int (length (input_tokens st))) mod 8)) 0 \<and>
           poss = input_positions st @
                    replicate (nat ((- int (length (input_positions st))) mod 8)) 0 \<and>
           im_slot_mapping md = slot_mapping st \<and>
           (\<exists>sd. for_each collect_seq_data gs [] = Inr sd \<and> im_seq_data md = sd) \<and>
           length (is_generating_new_token st) = length (seq_groups st)"
  using assms
  by (auto simp: prepare_inputs_def pad_to_alignment_def Let_def
      dest!: torch_tensor_Inr torch_tensor_2d_Inr split: if_splits sum.splits)

lemma pad_length_dvd: "8 dvd (n + nat ((- int n) mod 8))"
proof -
  have "(8::int) dvd int n + (- int n) mod 8" by presburger
  moreover have "int (n + nat ((- int n) mod 8)) = int n + (- int n) mod 8" by simp
  ultimately have "(8::int) dvd int (n + nat ((- int n) mod 8))" by simp
  then show ?thesis by presburger
qed

lemma pad_amount_less: "nat ((- int n) mod 8) < 8"
  by simp

lemma passes_result:
  assumes "for_each (prefill_group w) gs initial_locals = Inr st1"
    and "for_each (decode_group w) gs st1 = Inr st"
    and "\<forall>g\<in>set gs. distinct (map fst (seq_data g))"
  shows "input_tokens st = batch_tokens gs" and "input_positions st = batch_positions gs"
  using prefill_pass_result [OF assms(1)] decode_pass_result [OF assms(2,3)]
  by (simp_all add: batch_tokens_def batch_positions_def initial_locals_def)

lemma length_py_slice_prefix:
  "0 \<le> n \<Longrightarrow> n \<le> int (length xs) \<Longrightarrow> length (py_slice xs 0 n) = nat n"
  by (simp add: py_slice_def py_clip_def Let_def)

lemma length_py_slice_window:
  "0 \<le> a \<Longrightarrow> 0 \<le> n \<Longrightarrow> a + n \<le> int (length xs) \<Longrightarrow>
   length (py_slice xs a (a + n)) = nat n"
  by (auto simp: py_slice_def py_clip_def Let_def)

lemma length_seq_inflight_tokens:
  "inflight_within_tokens sdata \<Longrightarrow>
   length (seq_inflight_tokens sdata) = nat (running_inflight_tokens sdata)"
  unfolding seq_inflight_tokens_def
  by (rule length_py_slice_window)
     (auto simp: inflight_within_tokens_def seq_start_idx_def)

lemma prefill_group_slots:
  assumes "prefill_group w st g = Inr st'"
    and "\<forall>(k, sdata)\<in>set (seq_data g). inflight_within_tokens sdata"
    and "length (slot_mapping st) = length (input_tokens st)"
  shows "length (slot_mapping st') = length (input_tokens st')"
proof (cases "is_prompt g \<and> \<not> only_swap g")
  case False
  with assms show ?thesis by (auto simp: prefill_group_skip)
next
  case True
  show ?thesis
  proof (cases "seq_data g")
    case Nil
    with True assms show ?thesis by (simp add: prefill_group_no_seq)
  next
    case (Cons a rest)
    obtain seq_id sdata where a: "a = (seq_id, sdata)" by (cases a)
    note eq = prefill_group_first [of g seq_id sdata rest w st]
    from assms(2) Cons a have "inflight_within_tokens sdata" by auto
    then have len: "length (py_slice (token_ids sdata) 0 (running_inflight_tokens sdata)) =
                 nat (running_inflight_tokens sdata)"
      by (intro length_py_slice_prefix) (auto simp: inflight_within_tokens_def)
    show ?thesis
    proof (cases "block_tables g")
      case None
      with eq True Cons a assms(1,3) len show ?thesis
        by (auto simp: prefill_appended_def)
    next
      case (Some bts)
      with eq True Cons a assms obtain bt where
        "slot_loop w bt (py_range (running_inflight_tokens sdata))
           (prefill_appended st g sdata) = Inr st'"
        by (auto split: sum.splits)
      from slot_loop_frame [OF this] len assms(3) show ?thesis
        by (auto simp: prefill_appended_def length_py_range)
    qed
  qed
qed

lemma decode_seq_slots:
  assumes "decode_seq w g st seq_id = Inr st'"
    and "\<forall>(k, sdata)\<in>set (seq_data g). inflight_within_tokens sdata"
    and "length (slot_mapping st) = length (input_tokens st)"
  shows "length (slot_mapping st') = length (input_tokens st')"
proof -
  from decode_seq_result [OF assms(1)] obtain sdata where
    h: "map_of (seq_data g) seq_id = Some sdata"
       "input_tokens st' = input_tokens st @ seq_inflight_tokens sdata"
       "length (slot_mapping st') =
          length (slot_mapping st) + nat (running_inflight_tokens sdata)"
    by blast
  from h(1) have "(seq_id, sdata) \<in> set (seq_data g)" by (rule map_of_SomeD)
  with assms(2) have "inflight_within_tokens sdata" by auto
  with h assms(3) show ?thesis by (simp add: length_seq_inflight_tokens)
qed

lemma decode_group_slots:
  assumes "decode_group w st g = Inr st'"
    and "\<forall>(k, sdata)\<in>set (seq_data g). inflight_within_tokens sdata"
    and "length (slot_mapping st) = length (input_tokens st)"
  shows "length (slot_mapping st') = length (input_tokens st')"
proof (cases "is_prompt g \<or> only_swap g")
  case True
  with assms show ?thesis by (auto simp: decode_group_skip)
next
  case False
  let ?st1 = "st\<lparr>seq_groups := seq_groups st @ [(map fst (seq_data g), sampling_params g)]\<rparr>"
  from False assms have r:
    "for_each (decode_seq w g) (map fst (seq_data g)) ?st1 = Inr st'"
    by (simp add: decode_group_run)
  show ?thesis
  proof (rule for_each_invariant
      [where I = "\<lambda>s. length (slot_mapping s) = length (input_tokens s)", OF _ _ r])
    show "length (slot_mapping ?st1) = length (input_tokens ?st1)"
      using assms(3) by simp
  next
    fix s x s'
    assume "length (slot_mapping s) = length (input_tokens s)" "decode_seq w g s x = Inr s'"
    then show "length (slot_mapping s') = length (input_tokens s')"
      using decode_seq_slots assms(2) by blast
  qed
qed

lemma for_each_fails:
  assumes "x \<in> set xs" and "\<And>s. \<exists>e. body s x = Inl e"
  shows "\<exists>e. for_each body xs s = Inl e"
  using assms(1)
proof (induction xs arbitrary: s)
  case Nil
  then show ?case by simp
next
  case (Cons y ys)
  show ?case
  proof (cases "body s y")
    case (Inl e)
    then show ?thesis by simp
  next
    case (Inr s1)
    with assms(2) [of s] have "y \<noteq> x" by auto
    with Cons.prems have "x \<in> set ys" by simp
    from Cons.IH [OF this, of s1] Inr show ?thesis by simp
  qed
qed

lemma spec_slot_boundary_low:
  "0 < b \<Longrightarrow> spec_slot (k * b - 1) t b = t ! nat (k - 1) * b + (b - 1)"
proof -
  assume b: "0 < b"
  have e: "k * b - 1 = (b - 1) + (k - 1) * b" by (simp add: algebra_simps)
  have d: "((b - 1) + (k - 1) * b) div b = k - 1"
    using b by (simp add: div_pos_pos_trivial)
  have m: "((b - 1) + (k - 1) * b) mod b = b - 1"
    using b by (simp add: zmod_minus1)
  have "(k * b - 1) div b = k - 1" by (subst e) (rule d)
  moreover have "(k * b - 1) mod b = b - 1" by (subst e) (rule m)
  ultimately show ?thesis by (simp add: spec_slot_def)
qed

lemma spec_slot_boundary_high:
  "0 < b \<Longrightarrow> spec_slot (k * b) t b = t ! nat k * b"
  by (simp add: spec_slot_def)

lemma py_range_nonneg: "q \<in> set (py_range n) \<Longrightarrow> 0 \<le> q \<and> q < n"
  by (auto simp: py_range_def)

lemma prefill_group_in_range:
  assumes "block_size w = Some b" "0 < b"
    and "is_prompt g" "\<not> only_swap g" "seq_data g = (seq_id, sdata) # rest"
    and "block_tables g = Some bts" "map_of bts seq_id = Some t"
    and "\<forall>q\<in>set (py_range (running_inflight_tokens sdata)). q div b < int (length t)"
  shows "\<exists>st'. prefill_group w st g = Inr st' \<and>
           slot_mapping st' =
             slot_mapping st @
               map (\<lambda>q. spec_slot q t b) (py_range (running_inflight_tokens sdata))"
proof -
  have "\<forall>q\<in>set (py_range (running_inflight_tokens sdata)).
          0 \<le> q div b \<and> q div b < int (length t)"
    using assms(2,8) py_range_nonneg by (auto simp: pos_imp_zdiv_nonneg_iff)
  from slot_loop_in_range [OF assms(1) _ this, of "prefill_appended st g sdata"] assms(2)
  have "slot_loop w t (py_range (running_inflight_tokens sdata)) (prefill_appended st g sdata) =
          Inr ((prefill_appended st g sdata)
            \<lparr>slot_mapping := slot_mapping (prefill_appended st g sdata) @
               map (\<lambda>p. t ! nat (p div b) * b + p mod b)
                 (py_range (running_inflight_tokens sdata))\<rparr>)"
    by simp
  with prefill_group_first [OF assms(3,4,5), of w st] assms(6,7) show ?thesis
    by (simp add: py_getitem_def prefill_appended_def spec_slot_def)
qed

lemma decode_seq_in_range:
  assumes "block_size w = Some b" "0 < b"
    and "map_of (seq_data g) seq_id = Some sdata"
    and "block_tables g = Some bts" "map_of bts seq_id = Some t"
    and "0 < running_inflight_tokens sdata" "sliding_window w = None"
    and "\<forall>q\<in>set (seq_positions sdata). 0 \<le> q \<and> q div b < int (length t)"
  shows "\<exists>st'. decode_seq w g st seq_id = Inr st' \<and>
           slot_mapping st' =
             slot_mapping st @ map (\<lambda>q. spec_slot q t b) (seq_positions sdata)"
proof -
  have "\<forall>q\<in>set (seq_positions sdata). 0 \<le> q div b \<and> q div b < int (length t)"
    using assms(2,8) by (auto simp: pos_imp_zdiv_nonneg_iff)
  from slot_loop_in_range [OF assms(1) _ this, of "decode_appended st sdata t"] assms(2)
  have "slot_loop w t (seq_positions sdata) (decode_appended st sdata t) =
          Inr ((decode_appended st sdata t)
            \<lparr>slot_mapping := slot_mapping (decode_appended st sdata t) @
               map (\<lambda>p. t ! nat (p div b) * b + p mod b) (seq_positions sdata)\<rparr>)"
    by simp
  with decode_seq_no_window [OF assms(3,4,5,6,7), of st] show ?thesis
    by (simp add: decode_appended_def spec_slot_def)
qed

lemma prefill_group_too_big:
  assumes "block_size w = Some b" "b \<noteq> 0"
    and "is_prompt g" "\<not> only_swap g" "seq_data g = (seq_id, sdata) # rest"
    and "block_tables g = Some bts" "map_of bts seq_id = Some t"
    and "0 \<le> p" "p < running_inflight_tokens sdata" "int (length t) \<le> p div b"
  shows "prefill_group w st g = Inl IndexError"
proof -
  have "p \<in> set (py_range (running_inflight_tokens sdata))"
    using assms(8,9) by (auto simp: py_range_def image_iff intro: bexI [of _ "nat p"])
  with assms(10) have "\<exists>q\<in>set (py_range (running_inflight_tokens sdata)).
                          int (length t) \<le> q div b" by blast
  from slot_loop_too_big [OF assms(1,2) this]
    prefill_group_first [OF assms(3,4,5), of w st] assms(6,7)
  show ?thesis by (simp add: py_getitem_def)
qed

lemma py_index_last_map:
  "xs \<noteq> [] \<Longrightarrow> py_index (map f xs) (- 1) = Inr (f (last xs))"
  using py_index_last [of "map f xs"] by (simp add: last_map)

lemma decode_seq_too_big:
  assumes "block_size w = Some b" "b \<noteq> 0"
    and "map_of (seq_data g) seq_id = Some sdata"
    and "block_tables g = Some bts" "map_of bts seq_id = Some t"
    and "p \<in> set (seq_positions sdata)" "int (length t) \<le> p div b"
  shows "decode_seq w g st seq_id = Inl IndexError"
proof -
  from assms(6) have ne: "py_range (running_inflight_tokens sdata) \<noteq> []"
    by (auto simp: seq_positions_def)
  from assms(6,7) have "\<exists>q\<in>set (seq_positions sdata). int (length t) \<le> q div b" by blast
  note l = slot_loop_too_big [OF assms(1,2) this]
  show ?thesis
    using assms(3,4,5) ne
    by (simp add: decode_seq_def py_getitem_def Let_def get_len_def get_token_ids_def
        is_generating_def seq_start_idx_def [symmetric] decode_position_fun
        l [unfolded seq_positions_def] py_index_last_map split: option.splits)
qed

lemma prepare_inputs_prefill_fails:
  assumes "g \<in> set gs" and "\<And>st. \<exists>e. prefill_group w st g = Inl e"
  shows "\<exists>e. prepare_inputs w gs = Inl e"
proof -
  from for_each_fails [OF assms(1), of "prefill_group w" initial_locals] assms(2)
  obtain e where "for_each (prefill_group w) gs initial_locals = Inl e" by blast
  moreover from assms(1) have "gs \<noteq> []" by auto
  ultimately show ?thesis by (simp add: prepare_inputs_def)
qed

section \<open>Failure of a pass, placeholders\<close>

lemma prepare_inputs_decode_fails:
  assumes "g \<in> set gs" and "\<And>st. \<exists>e. decode_group w st g = Inl e"
  shows "\<exists>e. prepare_inputs w gs = Inl e"
proof (cases "for_each (prefill_group w) gs initial_locals")
  case (Inl e)
  moreover from assms(1) have "gs \<noteq> []" by auto
  ultimately show ?thesis by (simp add: prepare_inputs_def)
next
  case (Inr st1)
  from for_each_fails [OF assms(1), of "decode_group w" st1] assms(2)
  obtain e where "for_each (decode_group w) gs st1 = Inl e" by blast
  moreover from assms(1) have "gs \<noteq> []" by auto
  ultimately show ?thesis using Inr by (simp add: prepare_inputs_def)
qed

lemma decode_group_seq_fails:
  assumes "\<not> is_prompt g" "\<not> only_swap g" "seq_id \<in> fst ` set (seq_data g)"
    and "\<And>st. \<exists>e. decode_seq w g st seq_id = Inl e"
  shows "\<exists>e. decode_group w st g = Inl e"
proof -
  from assms(3) have "seq_id \<in> set (map fst (seq_data g))" by simp
  from for_each_fails [OF this, of "decode_seq w g"] assms(4)
  show ?thesis using assms(1,2) by (simp add: decode_group_run)
qed

lemma prepare_inputs_single_prefill_error:
  "prefill_group w initial_locals g = Inl e \<Longrightarrow> prepare_inputs w [g] = Inl e"
  by (simp add: prepare_inputs_def)

lemma prefill_group_placeholder:
  assumes "prefill_group w st g = Inr st'" and "block_tables g = None"
    and "set (slot_mapping st) \<subseteq> {0}"
  shows "set (slot_mapping st') \<subseteq> {0}"
proof (cases "is_prompt g \<and> \<not> only_swap g")
  case False
  with assms show ?thesis by (auto simp: prefill_group_skip)
next
  case True
  show ?thesis
  proof (cases "seq_data g")
    case Nil
    with True assms show ?thesis by (simp add: prefill_group_no_seq)
  next
    case (Cons a rest)
    obtain seq_id sdata where a: "a = (seq_id, sdata)" by (cases a)
    from prefill_group_first [of g seq_id sdata rest w st] True Cons a assms
    show ?thesis by (auto simp: prefill_appended_def)
  qed
qed

lemma decode_group_no_tables:
  assumes "decode_group w st g = Inr st'" and "block_tables g = None"
  shows "slot_mapping st' = slot_mapping st"
proof (cases "is_prompt g \<or> only_swap g")
  case True
  with assms show ?thesis by (auto simp: decode_group_skip)
next
  case False
  let ?st1 = "st\<lparr>seq_groups := seq_groups st @ [(map fst (seq_data g), sampling_params g)]\<rparr>"
  from False assms have r:
    "for_each (decode_seq w g) (map fst (seq_data g)) ?st1 = Inr st'"
    by (simp add: decode_group_run)
  show ?thesis
  proof (rule for_each_invariant
      [where I = "\<lambda>s. slot_mapping s = slot_mapping st", OF _ _ r])
    show "slot_mapping ?st1 = slot_mapping st" by simp
  next
    fix s x s'
    assume "decode_seq w g s x = Inr s'"
    from decode_seq_Inr [OF this] assms(2)
    show "slot_mapping s' = slot_mapping st" by simp
  qed
qed

section \<open>The example inputs, evaluated\<close>

lemma mixed_batch_result:
  "prepare_inputs worker_bs4 mixed_batch =
     Inr (Some ([11, 12, 13, 14, 15, 24, 25, 0], [0, 1, 2, 3, 4, 3, 4, 0], mixed_batch_metadata))"
  by code_simp

lemma profiling_group_result:
  "prepare_inputs worker_unset [profiling_group] =
     Inr (Some ([0, 0, 0, 0, 0, 0, 0, 0], [0, 1, 2, 0, 0, 0, 0, 0], profiling_metadata))"
  by code_simp

lemma scenario_a_result: "prepare_inputs worker_bs4 [scenario_a] = Inl IndexError"
  by code_simp

section \<open>The collected sequence data\<close>

lemma assert_absent_loop:
  "for_each (assert_absent d) ks () =
     (if \<exists>k\<in>set ks. k \<in> fst ` set d then Inl AssertionError else Inr ())"
  by (induction ks) (auto simp: assert_absent_def)

lemma dict_update_keys: "fst ` set (dict_update d new) = fst ` set d \<union> fst ` set new"
proof (induction new arbitrary: d)
  case Nil
  then show ?case by (simp add: dict_update_def)
next
  case (Cons a new)
  obtain k v where a: "a = (k, v)" by (cases a)
  have "dict_update d (a # new) = dict_update (AList.update k v d) new"
    by (simp add: dict_update_def a)
  with Cons.IH [of "AList.update k v d"] a show ?case
    by (auto simp: dom_update)
qed

lemma collect_seq_data_eq:
  "collect_seq_data d g =
     (if only_swap g then Inr d
      else if fst ` set (seq_data g) \<inter> fst ` set d \<noteq> {} then Inl AssertionError
      else Inr (dict_update d (seq_data g)))"
  by (auto simp: collect_seq_data_def assert_absent_loop)

lemma collect_overlap:
  "\<exists>g\<in>set gs. \<not> only_swap g \<and> fst ` set (seq_data g) \<inter> fst ` set d \<noteq> {} \<Longrightarrow>
   for_each collect_seq_data gs d = Inl AssertionError"
proof (induction gs arbitrary: d)
  case Nil
  then show ?case by simp
next
  case (Cons g gs)
  show ?case
  proof (cases "collect_seq_data d g")
    case (Inl e)
    then have "e = AssertionError" by (auto simp: collect_seq_data_eq split: if_splits)
    with Inl show ?thesis by simp
  next
    case (Inr d')
    then have "d' = d \<or> d' = dict_update d (seq_data g)"
      and ok: "only_swap g \<or> fst ` set (seq_data g) \<inter> fst ` set d = {}"
      by (simp_all add: collect_seq_data_eq split: if_splits)
    then have sub: "fst ` set d \<subseteq> fst ` set d'"
      using dict_update_keys [of d "seq_data g"] by blast
    from Cons.prems ok obtain g' where
      "g' \<in> set gs" "\<not> only_swap g'" "fst ` set (seq_data g') \<inter> fst ` set d \<noteq> {}"
      by auto
    with sub have "\<exists>g\<in>set gs. \<not> only_swap g \<and> fst ` set (seq_data g) \<inter> fst ` set d' \<noteq> {}"
      by blast
    from Cons.IH [OF this] Inr show ?thesis by simp
  qed
qed

lemma collect_duplicate:
  assumes "\<not> only_swap g1" "\<not> only_swap g2"
    and "k \<in> fst ` set (seq_data g1)" "k \<in> fst ` set (seq_data g2)"
  shows "for_each collect_seq_data (pre @ g1 # mid @ g2 # post) d = Inl AssertionError"
proof (induction pre arbitrary: d)
  case Nil
  show ?case
  proof (cases "collect_seq_data d g1")
    case (Inl e)
    then have "e = AssertionError" by (auto simp: collect_seq_data_eq split: if_splits)
    with Inl show ?thesis by simp
  next
    case (Inr d')
    with assms(1) have "d' = dict_update d (seq_data g1)"
      by (simp add: collect_seq_data_eq split: if_splits)
    with assms(3) have "k \<in> fst ` set d'"
      using dict_update_keys [of d "seq_data g1"] by blast
    with assms(2,4) have
      "\<exists>g\<in>set (mid @ g2 # post). \<not> only_swap g \<and> fst ` set (seq_data g) \<inter> fst ` set d' \<noteq> {}"
      by auto
    from collect_overlap [OF this] Inr show ?thesis by simp
  qed
next
  case (Cons g pre)
  show ?case
  proof (cases "collect_seq_data d g")
    case (Inl e)
    then have "e = AssertionError" by (auto simp: collect_seq_data_eq split: if_splits)
    with Inl show ?thesis by simp
  next
    case (Inr d')
    with Cons.IH [of d'] show ?thesis by simp
  qed
qed

lemma prepare_inputs_passes:
  "prepare_inputs w gs =
     (if gs = [] then Inr None
      else (case run_passes w gs of
              Inl e \<Rightarrow> Inl e
            | Inr st \<Rightarrow>
                if input_tokens st = [] then Inr None
                else if \<not> tensors_fit st then Inl TensorConversionError
                else (case for_each collect_seq_data gs [] of
                        Inl e \<Rightarrow> Inl e
                      | Inr sd \<Rightarrow>
                          if length (is_generating_new_token st) \<noteq> length (seq_groups st)
                          then Inl AssertionError
                          else Inr (Some
                            (input_tokens st @
                               replicate (nat ((- int (length (input_tokens st))) mod 8)) 0,
                             input_positions st @
                               replicate (nat ((- int (length (input_positions st))) mod 8)) 0,
                             \<lparr>im_seq_groups = seq_groups st,
                              im_seq_data = sd,
                              im_prompt_lens = prompt_lens st,
                              im_slot_mapping = slot_mapping st,
                              im_context_lens = context_lens st,
                              im_max_context_len = max_context_len st,
                              im_block_tables =
                                map (\<lambda>block_table.
                                       pad_to_max block_table (max_num_blocks_per_seq st))
                                  (generation_block_tables st),
                              im_running_query_lens = running_query_lens st,
                              im_is_generating_new_token = is_generating_new_token st,
                              im_sliding_window = sliding_window w\<rparr>)))))"
proof (cases "gs = []")
  case True
  then show ?thesis by (simp add: prepare_inputs_def)
next
  case ne: False
  show ?thesis
  proof (cases "run_passes w gs")
    case rp: (Inl e)
    show ?thesis
    proof (cases "for_each (prefill_group w) gs initial_locals")
      case (Inl e')
      with ne rp show ?thesis by (simp add: prepare_inputs_def run_passes_def)
    next
      case (Inr st1)
      with ne rp show ?thesis by (simp add: prepare_inputs_def run_passes_def)
    qed
  next
    case (Inr st)
    then obtain st1 where
      p: "for_each (prefill_group w) gs initial_locals = Inr st1"
      and d: "for_each (decode_group w) gs st1 = Inr st"
      by (auto simp: run_passes_def split: sum.splits)
    show ?thesis
    proof (cases "input_tokens st = []")
      case True
      with ne p d Inr show ?thesis by (simp add: prepare_inputs_def)
    next
      case tok: False
      let ?rows = "map (\<lambda>block_table. pad_to_max block_table (max_num_blocks_per_seq st))
                     (generation_block_tables st)"
      show ?thesis
      proof (cases "tensors_fit st")
        case True
        then have "list_all (fits_dtype 64) (input_tokens st)"
          "list_all (fits_dtype 64) (input_positions st)"
          "list_all (fits_dtype 32) (slot_mapping st)"
          "list_all (fits_dtype 32) (context_lens st)"
          "torch_tensor_2d 32 ?rows = Inr ?rows"
          by (simp_all add: tensors_fit_def Let_def torch_tensor_2d_def)
        with ne p d Inr tok True show ?thesis
          by (simp add: prepare_inputs_def pad_to_alignment_def Let_def torch_tensor_def
              list_all_fits_filler split: sum.splits)
      next
        case False
        then have "\<not> list_all (fits_dtype 64) (input_tokens st) \<or>
          \<not> list_all (fits_dtype 64) (input_positions st) \<or>
          \<not> list_all (fits_dtype 32) (slot_mapping st) \<or>
          \<not> list_all (fits_dtype 32) (context_lens st) \<or>
          torch_tensor_2d 32 ?rows = Inl TensorConversionError"
          by (auto simp: tensors_fit_def Let_def torch_tensor_2d_def)
        with ne p d Inr tok False show ?thesis
          by (auto simp: prepare_inputs_def pad_to_alignment_def Let_def torch_tensor_def
              list_all_fits_filler)
      qed
    qed
  qed
qed

section \<open>Slots as a list, the first sequence of a prompt group\<close>

lemma slot_loop_slot_list:
  "slot_loop w t ps st =
     (case slot_list (block_size w) t ps of
        Inl e \<Rightarrow> Inl e
      | Inr slots \<Rightarrow> Inr (st\<lparr>slot_mapping := slot_mapping st @ slots\<rparr>))"
proof (induction ps arbitrary: st)
  case Nil
  then show ?case by (simp add: slot_loop_Nil)
next
  case (Cons p ps)
  show ?case
    by (simp add: slot_loop_Cons Cons.IH split: sum.splits)
qed

section \<open>The sliding window\<close>

lemma slot_loop_ignores_window:
  "slot_loop (w\<lparr>sliding_window := x\<rparr>) t ps st = slot_loop w t ps st"
  by (simp add: slot_loop_slot_list)

lemma prefill_group_ignores_window:
  "prefill_group (w\<lparr>sliding_window := x\<rparr>) st g = prefill_group w st g"
  by (simp add: prefill_group_def slot_loop_ignores_window Let_def
      cong: sum.case_cong option.case_cong)

lemma for_each_cong_body:
  "(\<And>s x. body s x = body' s x) \<Longrightarrow> for_each body xs s = for_each body' xs s"
  by (induction xs arbitrary: s) (simp_all split: sum.splits)

lemma decode_seq_window_asserts:
  assumes "block_size w = Some b" "0 < b"
    and "map_of (seq_data g) seq_id = Some sdata"
    and "block_tables g = Some bts" "map_of bts seq_id = Some t"
    and "0 < running_inflight_tokens sdata" "sliding_window w = Some sw"
    and "\<forall>q\<in>set (seq_positions sdata). 0 \<le> q \<and> q div b < int (length t)"
  shows "decode_seq w g st seq_id = Inl AssertionError"
proof -
  from assms(6) have ne: "py_range (running_inflight_tokens sdata) \<noteq> []"
    by (simp add: py_range_nonempty)
  have b0: "b \<noteq> 0" using assms(2) by simp
  have "\<forall>q\<in>set (seq_positions sdata). 0 \<le> q div b \<and> q div b < int (length t)"
    using assms(2,8) by (auto simp: pos_imp_zdiv_nonneg_iff)
  note l = slot_loop_in_range [OF assms(1) b0 this]
  show ?thesis
    using assms(3,4,5,7) ne
    by (simp add: decode_seq_def py_getitem_def Let_def get_len_def get_token_ids_def
        is_generating_def seq_start_idx_def [symmetric] decode_position_fun
        l [unfolded seq_positions_def] py_index_last_map)
qed

lemma decode_seq_window_raises:
  "sliding_window w = Some sw \<Longrightarrow> \<exists>e. decode_seq w g st seq_id = Inl e"
proof (cases "decode_seq w g st seq_id")
  case (Inl e)
  then show ?thesis by blast
next
  case (Inr st')
  assume "sliding_window w = Some sw"
  with decode_seq_Inr [OF Inr] show ?thesis by simp
qed

section \<open>Steps without tokens\<close>

lemma py_slice_none: "py_slice xs 0 0 = []"
  by (simp add: py_slice_def py_clip_def)

lemma prefill_group_no_tokens:
  assumes "no_tokens_group g" and "input_tokens st = []"
  shows "\<exists>st'. prefill_group w st g = Inr st' \<and> input_tokens st' = []"
proof (cases "only_swap g")
  case True
  with assms(2) show ?thesis by (simp add: prefill_group_skip)
next
  case False
  with assms(1) obtain seq_id sdata rest where
    h: "is_prompt g" "seq_data g = (seq_id, sdata) # rest" "running_inflight_tokens sdata = 0"
    and bt: "block_tables g = None \<or> (\<exists>bts bt. block_tables g = Some bts \<and> map_of bts seq_id = Some bt)"
    by (auto simp: no_tokens_group_def split: list.splits option.splits)
  from bt show ?thesis
  proof
    assume "block_tables g = None"
    with prefill_group_first [OF h(1) False h(2), of w st] h(3) assms(2) show ?thesis
      by (simp add: prefill_appended_def py_slice_none)
  next
    assume "\<exists>bts bt. block_tables g = Some bts \<and> map_of bts seq_id = Some bt"
    then obtain bts bt where "block_tables g = Some bts" "map_of bts seq_id = Some bt"
      by blast
    with prefill_group_first [OF h(1) False h(2), of w st] h(3) assms(2) show ?thesis
      by (simp add: prefill_appended_def py_slice_none py_getitem_def py_range_def
          slot_loop_Nil)
  qed
qed

lemma for_each_total:
  assumes "\<And>s x. x \<in> set xs \<Longrightarrow> I s \<Longrightarrow> \<exists>s'. body s x = Inr s' \<and> I s'"
    and "I s"
  shows "\<exists>s'. for_each body xs s = Inr s' \<and> I s'"
  using assms
proof (induction xs arbitrary: s)
  case Nil
  then show ?case by simp
next
  case (Cons x xs)
  from Cons.prems(1) [of x s] Cons.prems(2) obtain s1 where
    b: "body s x = Inr s1" and i: "I s1" by auto
  have "\<exists>s'. for_each body xs s1 = Inr s' \<and> I s'"
    by (rule Cons.IH [OF _ i]) (rule Cons.prems(1), simp_all)
  with b show ?case by simp
qed

lemma prepare_inputs_no_tokens:
  assumes "\<forall>g\<in>set gs. no_tokens_group g"
  shows "prepare_inputs w gs = Inr None"
proof (cases "gs = []")
  case True
  then show ?thesis by (simp add: prepare_inputs_def)
next
  case False
  let ?I = "\<lambda>s::'a locals. input_tokens s = []"
  have "\<exists>st1. for_each (prefill_group w) gs initial_locals = Inr st1 \<and> ?I st1"
  proof (rule for_each_total [where I = ?I])
    show "?I initial_locals" by (simp add: initial_locals_def)
  next
    fix s x assume "x \<in> set gs" "?I s"
    with assms show "\<exists>s'. prefill_group w s x = Inr s' \<and> ?I s'"
      by (simp add: prefill_group_no_tokens)
  qed
  then obtain st1 where p: "for_each (prefill_group w) gs initial_locals = Inr st1"
    and e1: "?I st1" by blast
  have "\<exists>st. for_each (decode_group w) gs st1 = Inr st \<and> ?I st"
  proof (rule for_each_total [where I = ?I, OF _ e1])
    fix s x assume "x \<in> set gs" "?I s"
    with assms have "no_tokens_group x" by blast
    then have "is_prompt x \<or> only_swap x" by (auto simp: no_tokens_group_def)
    with \<open>?I s\<close> show "\<exists>s'. decode_group w s x = Inr s' \<and> ?I s'"
      by (simp add: decode_group_skip)
  qed
  then obtain st where "for_each (decode_group w) gs st1 = Inr st" "?I st" by blast
  with p False show ?thesis by (simp add: prepare_inputs_def)
qed

section \<open>Counting slots\<close>

lemma for_each_sum:
  fixes f :: "'s \<Rightarrow> nat"
  assumes "\<And>s x s'. x \<in> set xs \<Longrightarrow> body s x = Inr s' \<Longrightarrow> f s' = f s + c x"
    and "for_each body xs s = Inr s'"
  shows "f s' = f s + sum_list (map c xs)"
  using assms
proof (induction xs arbitrary: s)
  case Nil
  then show ?case by simp
next
  case (Cons x xs)
  from Cons.prems(2) obtain s1 where
    b: "body s x = Inr s1" and r: "for_each body xs s1 = Inr s'"
    by (auto split: sum.splits)
  have "f s1 = f s + c x"
    using Cons.prems(1) [OF _ b] by simp
  moreover have "f s' = f s1 + sum_list (map c xs)"
    using Cons.IH [OF _ r] Cons.prems(1) by simp
  ultimately show ?case by simp
qed

lemma prefill_group_slot_count:
  assumes "prefill_group w st g = Inr st'"
  shows "length (slot_mapping st') = length (slot_mapping st) + prefill_slot_count g"
proof (cases "is_prompt g \<and> \<not> only_swap g")
  case False
  with assms show ?thesis by (auto simp: prefill_group_skip prefill_slot_count_def)
next
  case True
  show ?thesis
  proof (cases "seq_data g")
    case Nil
    with True assms show ?thesis by (simp add: prefill_group_no_seq)
  next
    case (Cons a rest)
    obtain seq_id sdata where a: "a = (seq_id, sdata)" by (cases a)
    from True Cons a have h: "is_prompt g" "\<not> only_swap g" "seq_data g = (seq_id, sdata) # rest"
      by simp_all
    have c: "prefill_slot_count g = nat (running_inflight_tokens sdata)"
      using h by (simp add: prefill_slot_count_def)
    note eq = prefill_group_first [OF h, of w st]
    show ?thesis
    proof (cases "block_tables g")
      case None
      with eq assms c show ?thesis by (auto simp: prefill_appended_def)
    next
      case (Some bts)
      with eq assms obtain bt where
        "slot_loop w bt (py_range (running_inflight_tokens sdata))
           (prefill_appended st g sdata) = Inr st'"
        by (auto split: sum.splits)
      from slot_loop_frame [OF this] c show ?thesis
        by (auto simp: prefill_appended_def length_py_range)
    qed
  qed
qed

lemma sum_lookup_keys:
  "distinct (map fst l) \<Longrightarrow>
   sum_list (map ((\<lambda>k. f (the (map_of l k))) \<circ> fst) l) = (\<Sum>(k, v)\<leftarrow>l. f v)"
  by (simp add: map_lookup_keys)

lemma decode_group_slot_count:
  assumes "decode_group w st g = Inr st'" and "distinct (map fst (seq_data g))"
  shows "length (slot_mapping st') = length (slot_mapping st) + decode_slot_count g"
proof (cases "is_prompt g \<or> only_swap g")
  case True
  with assms show ?thesis by (auto simp: decode_group_skip decode_slot_count_def)
next
  case False
  let ?st1 = "st\<lparr>seq_groups := seq_groups st @ [(map fst (seq_data g), sampling_params g)]\<rparr>"
  from False assms have r:
    "for_each (decode_seq w g) (map fst (seq_data g)) ?st1 = Inr st'"
    by (simp add: decode_group_run)
  have "length (slot_mapping st') = length (slot_mapping ?st1) +
          sum_list (map (\<lambda>k. nat (running_inflight_tokens (the (map_of (seq_data g) k))))
            (map fst (seq_data g)))"
  proof (rule for_each_sum [OF _ r])
    fix s x s' assume "decode_seq w g s x = Inr s'"
    from decode_seq_result [OF this]
    show "length (slot_mapping s') =
            length (slot_mapping s) +
              nat (running_inflight_tokens (the (map_of (seq_data g) x)))"
      by auto
  qed
  with False sum_lookup_keys [OF assms(2), of "\<lambda>sdata. nat (running_inflight_tokens sdata)"]
  show ?thesis
    by (simp add: decode_slot_count_def)
qed

lemma passes_slot_count:
  assumes "for_each (prefill_group w) gs initial_locals = Inr st1"
    and "for_each (decode_group w) gs st1 = Inr st"
    and "\<forall>g\<in>set gs. distinct (map fst (seq_data g))"
  shows "length (slot_mapping st) =
           sum_list (map prefill_slot_count gs) + sum_list (map decode_slot_count gs)"
proof -
  have "length (slot_mapping st1) =
          length (slot_mapping (initial_locals :: 'a locals)) + sum_list (map prefill_slot_count gs)"
    by (rule for_each_sum [OF _ assms(1)]) (rule prefill_group_slot_count)
  moreover have "length (slot_mapping st) =
          length (slot_mapping st1) + sum_list (map decode_slot_count gs)"
  proof (rule for_each_sum [OF _ assms(2)])
    fix s x s' assume "x \<in> set gs" "decode_group w s x = Inr s'"
    with assms(3) show "length (slot_mapping s') = length (slot_mapping s) + decode_slot_count x"
      by (simp add: decode_group_slot_count)
  qed
  ultimately show ?thesis by (simp add: initial_locals_def)
qed

section \<open>The profiling batch\<close>

lemma sum_remainder_flags:
  "0 \<le> r \<Longrightarrow> (\<Sum>i\<leftarrow>[0..<n]. if int i < r then (1::int) else 0) = min (int n) r"
  by (induction n) auto

lemma sum_profile_seq_len:
  assumes "0 < s"
  shows "(\<Sum>g\<leftarrow>py_range s. profile_seq_len t s g) = t"
proof -
  have r: "0 \<le> t mod s" "t mod s < s" using assms by simp_all
  have "(\<Sum>g\<leftarrow>py_range s. profile_seq_len t s g) =
        (\<Sum>i\<leftarrow>[0..<nat s]. t div s + (if int i < t mod s then 1 else 0))"
    by (simp add: py_range_def profile_seq_len_def comp_def)
  also have "\<dots> = (\<Sum>i\<leftarrow>[0..<nat s]. t div s) +
                   (\<Sum>i\<leftarrow>[0..<nat s]. if int i < t mod s then 1 else 0)"
    by (simp add: sum_list_addf)
  also have "\<dots> = int (nat s) * (t div s) + min (int (nat s)) (t mod s)"
    by (simp add: sum_list_triv sum_remainder_flags r(1))
  also have "\<dots> = s * (t div s) + t mod s"
    using assms r by simp
  also have "\<dots> = t" by simp
  finally show ?thesis .
qed

lemma profile_seq_len_nonneg:
  "0 < s \<Longrightarrow> 0 \<le> t \<Longrightarrow> 0 \<le> profile_seq_len t s g"
  by (simp add: profile_seq_len_def pos_imp_zdiv_nonneg_iff)

lemma length_profile_seqs: "length (profile_seqs fresh sp t s) = nat s"
  by (simp add: profile_seqs_def py_range_def)

lemma synthetic_prompts_profile_seqs:
  "synthetic_prompts (profile_seqs fresh sp t s) =
     map (\<lambda>group_id. replicate (nat (profile_seq_len t s group_id)) 0) (py_range s)"
  by (simp add: synthetic_prompts_def profile_seqs_def new_SequenceData_def get_token_ids_def
      Let_def comp_def concat_map_singleton)

lemma nth_synthetic_prompts:
  "i < nat s \<Longrightarrow>
   synthetic_prompts (profile_seqs fresh sp t s) ! i =
     replicate (nat (profile_seq_len t s (int i))) 0"
  by (simp add: synthetic_prompts_profile_seqs py_range_def)

lemma sum_length_synthetic_prompts:
  assumes "0 < s" "0 \<le> t"
  shows "(\<Sum>p\<leftarrow>synthetic_prompts (profile_seqs fresh sp t s). int (length p)) = t"
proof -
  have "(\<Sum>p\<leftarrow>synthetic_prompts (profile_seqs fresh sp t s). int (length p)) =
        (\<Sum>g\<leftarrow>py_range s. profile_seq_len t s g)"
    using profile_seq_len_nonneg [OF assms]
    by (simp add: synthetic_prompts_profile_seqs comp_def)
  with sum_profile_seq_len [OF assms(1)] show ?thesis by simp
qed

section \<open>Powers of two, the binary exponent\<close>







section \<open>Rounding to the nearest integer, ties to even\<close>


lemma round_half_even_ge:
  assumes "of_int n \<le> q"
  shows "n \<le> round_half_even q"
proof -
  have "n \<le> \<lfloor>q\<rfloor>" using assms by (simp add: le_floor_iff)
  then show ?thesis by (simp add: round_half_even_def Let_def)
qed


section \<open>Rounding a magnitude\<close>


lemma round_magnitude_nonneg:
  assumes "0 \<le> a"
  shows "0 \<le> round_magnitude a"
proof -
  have "(of_int 0 :: rat) \<le> a / 2 powi ulp_exponent a" using assms by simp
  from round_half_even_ge [OF this] show ?thesis by (simp add: round_magnitude_def)
qed










section \<open>Rounding to a double\<close>

lemma round_double_zero [simp]: "round_double 0 = Finite 0"
  by (simp add: round_double_def)

lemma round_double_pos:
  "0 < x \<Longrightarrow> round_double x =
     (if 2 ^ 1024 \<le> round_magnitude x then PosInf else Finite (round_magnitude x))"
  by (simp add: round_double_def)




lemma round_double_nonneg:
  assumes "0 \<le> x"
  shows "at_least (round_double x) 0"
proof (cases "x = 0")
  case True
  then show ?thesis by (simp add: at_least_def)
next
  case False
  with assms have x: "0 < x" by simp
  then have "0 \<le> round_magnitude x" by (intro round_magnitude_nonneg) simp
  then show ?thesis using x by (simp add: round_double_pos at_least_def)
qed




lemma at_least_neg: "at_least (double_neg x) (- y) = at_most x y"
  by (simp add: at_least_def at_most_def double_neg_def split: double.splits)







section \<open>The floor division of a float that is not positive\<close>









section \<open>A peak above the budget\<close>








section \<open>Arguments for which the block counts are returned\<close>













section \<open>Evaluating a rounding\<close>








section \<open>The block counts at the example arguments\<close>
















section \<open>Claims\<close>

text \<open>
  Claim C1. For every logical position \<open>p\<close>, block table \<open>t\<close> and block size \<open>b > 0\<close> with
  \<open>p div b < length t\<close>, the slot the code computes is \<open>t[p div b] * b + p mod b\<close>, also at
  the block boundaries \<open>k * b - 1\<close> and \<open>k * b\<close>; the prefill loop appends exactly these slots
  for the positions \<open>0, ..., prompt_len - 1\<close> and the decode loop for the positions of the
  sequence. Logical positions are not negative.
\<close>

theorem slot_follows_contract:
  fixes st :: "'sp locals" and gp gd :: "'sp SequenceGroupMetadata"
  assumes "block_size w = Some b" and "0 < b"
    and "0 \<le> p" and "p div b < int (length t)"
    and "0 < k" and "k < int (length t)"
    and "is_prompt gp" and "\<not> only_swap gp" and "seq_data gp = (pid, psd) # rest"
    and "block_tables gp = Some pbts" and "map_of pbts pid = Some tp"
    and "\<forall>q\<in>set (py_range (running_inflight_tokens psd)). q div b < int (length tp)"
    and "map_of (seq_data gd) did = Some dsd"
    and "block_tables gd = Some dbts" and "map_of dbts did = Some td"
    and "0 < running_inflight_tokens dsd" and "sliding_window w = None"
    and "\<forall>q\<in>set (seq_positions dsd). 0 \<le> q \<and> q div b < int (length td)"
  shows "compute_slot (block_size w) t p = Inr (spec_slot p t b) \<and>
         compute_slot (block_size w) t (k * b - 1) = Inr (t ! nat (k - 1) * b + (b - 1)) \<and>
         compute_slot (block_size w) t (k * b) = Inr (t ! nat k * b) \<and>
         (\<exists>st'. prefill_group w st gp = Inr st' \<and>
            slot_mapping st' =
              slot_mapping st @
                map (\<lambda>q. spec_slot q tp b) (py_range (running_inflight_tokens psd))) \<and>
         (\<exists>st'. decode_seq w gd st did = Inr st' \<and>
            slot_mapping st' =
              slot_mapping st @ map (\<lambda>q. spec_slot q td b) (seq_positions dsd))"
proof -
  have b0: "b \<noteq> 0" using assms(2) by simp
  have "0 \<le> p div b" using assms(2,3) by (simp add: pos_imp_zdiv_nonneg_iff)
  from compute_slot_in_range [OF b0 this assms(4)]
  have c1: "compute_slot (block_size w) t p = Inr (spec_slot p t b)"
    by (simp add: assms(1) spec_slot_def)
  have e: "k * b - 1 = (b - 1) + (k - 1) * b" by (simp add: algebra_simps)
  have "((b - 1) + (k - 1) * b) div b = k - 1"
    using assms(2) by (simp add: div_pos_pos_trivial)
  then have dl: "(k * b - 1) div b = k - 1" by (subst e)
  with assms(5,6) have "0 \<le> (k * b - 1) div b" "(k * b - 1) div b < int (length t)"
    by simp_all
  from compute_slot_in_range [OF b0 this]
  have c2: "compute_slot (block_size w) t (k * b - 1) = Inr (t ! nat (k - 1) * b + (b - 1))"
    using spec_slot_boundary_low [OF assms(2), of k t]
    by (simp add: assms(1) spec_slot_def)
  have "0 \<le> (k * b) div b" "(k * b) div b < int (length t)"
    using assms(2,5,6) by simp_all
  from compute_slot_in_range [OF b0 this]
  have c3: "compute_slot (block_size w) t (k * b) = Inr (t ! nat k * b)"
    using b0 by (simp add: assms(1))
  note c4 = prefill_group_in_range [OF assms(1,2,7,8,9,10,11,12), of st]
  note c5 = decode_seq_in_range [OF assms(1,2,13,14,15,16,17,18), of st]
  from c1 c2 c3 c4 c5 show ?thesis by blast
qed

text \<open>
  At block size 4: position 6 of the table \<open>[7, 9]\<close>, the boundary \<open>k = 1\<close>, the five prompt
  positions of \<open>prompt_two_blocks\<close> and the two decode positions of \<open>decode_two_blocks\<close>.
\<close>

theorem slot_follows_contract_witness:
  "compute_slot (Some 4) [7, 9] 6 = Inr 38 \<and>
   compute_slot (Some 4) [7, 9] 3 = Inr 31 \<and>
   compute_slot (Some 4) [7, 9] 4 = Inr 36 \<and>
   (\<exists>st'. prefill_group worker_bs4 initial_locals prompt_two_blocks = Inr st' \<and>
      slot_mapping st' = [28, 29, 30, 31, 36]) \<and>
   (\<exists>st'. decode_seq worker_bs4 decode_two_blocks initial_locals 1 = Inr st' \<and>
      slot_mapping st' = [15, 20])"
proof -
  have h1: "block_size worker_bs4 = Some 4" by (simp add: worker_bs4_def)
  have h2: "(0::int) < 4" by simp
  have h3: "(0::int) \<le> 6" by simp
  have h4: "(6::int) div 4 < int (length [7, 9 :: int])" by simp
  have h5: "(0::int) < 1" by simp
  have h6: "(1::int) < int (length [7, 9 :: int])" by simp
  have h7: "is_prompt prompt_two_blocks" by (simp add: prompt_two_blocks_def)
  have h8: "\<not> only_swap prompt_two_blocks" by (simp add: prompt_two_blocks_def)
  have h9: "seq_data prompt_two_blocks = (0, five_tokens) # []"
    by (simp add: prompt_two_blocks_def)
  have h10: "block_tables prompt_two_blocks = Some [(0, [7, 9])]"
    by (simp add: prompt_two_blocks_def)
  have h11: "map_of [(0::int, [7, 9 :: int])] 0 = Some [7, 9]" by simp
  have h12: "\<forall>q\<in>set (py_range (running_inflight_tokens five_tokens)).
               q div 4 < int (length [7, 9 :: int])"
    by (simp add: five_tokens_def py_range_def upt_conv_Cons)
  have h13: "map_of (seq_data decode_two_blocks) 1 = Some two_in_flight"
    by (simp add: decode_two_blocks_def)
  have h14: "block_tables decode_two_blocks = Some [(1, [3, 5])]"
    by (simp add: decode_two_blocks_def)
  have h15: "map_of [(1::int, [3, 5 :: int])] 1 = Some [3, 5]" by simp
  have h16: "0 < running_inflight_tokens two_in_flight" by (simp add: two_in_flight_def)
  have h17: "sliding_window worker_bs4 = None" by (simp add: worker_bs4_def)
  have h18: "\<forall>q\<in>set (seq_positions two_in_flight). 0 \<le> q \<and> q div 4 < int (length [3, 5 :: int])"
    by (simp add: seq_positions_def seq_start_idx_def two_in_flight_def py_range_def
        upt_conv_Cons)
  from slot_follows_contract
    [OF h1 h2 h3 h4 h5 h6 h7 h8 h9 h10 h11 h12 h13 h14 h15 h16 h17 h18, of initial_locals]
  show ?thesis
    by (simp add: h1 spec_slot_def initial_locals_def five_tokens_def two_in_flight_def
        seq_positions_def seq_start_idx_def py_range_def upt_conv_Cons)
qed

text \<open>
  Claim C2. A position whose block index \<open>p div block_size\<close> is not below the length of
  the block table makes batch assembly raise: the slot computation, the prefill iteration
  and the decode iteration raise \<^verbatim>\<open>IndexError\<close>, a batch holding such a group raises, and so
  does scenario A (5 prompt tokens, block size 4, block table \<open>[7]\<close>). Nothing is clamped
  or truncated.
\<close>

theorem position_beyond_table_raises:
  fixes st :: "'sp locals" and gp gd :: "'sp SequenceGroupMetadata"
  assumes "block_size w = Some b" and "b \<noteq> 0"
    and "int (length t) \<le> p div b"
    and "is_prompt gp" and "\<not> only_swap gp" and "seq_data gp = (pid, psd) # rest"
    and "block_tables gp = Some pbts" and "map_of pbts pid = Some tp"
    and "0 \<le> pp" and "pp < running_inflight_tokens psd" and "int (length tp) \<le> pp div b"
    and "\<not> is_prompt gd" and "\<not> only_swap gd" and "map_of (seq_data gd) did = Some dsd"
    and "block_tables gd = Some dbts" and "map_of dbts did = Some td"
    and "pd \<in> set (seq_positions dsd)" and "int (length td) \<le> pd div b"
    and "gp \<in> set gs" and "gd \<in> set gs'"
  shows "compute_slot (block_size w) t p = Inl IndexError \<and>
         prefill_group w st gp = Inl IndexError \<and>
         decode_seq w gd st did = Inl IndexError \<and>
         prepare_inputs w [gp] = Inl IndexError \<and>
         (\<exists>e. prepare_inputs w gs = Inl e) \<and>
         (\<exists>e. prepare_inputs w gs' = Inl e) \<and>
         prepare_inputs worker_bs4 [scenario_a] = Inl IndexError"
proof -
  have c1: "compute_slot (block_size w) t p = Inl IndexError"
    using compute_slot_too_big [OF assms(2,3)] by (simp add: assms(1))
  have pf: "prefill_group w s gp = Inl IndexError" for s
    by (rule prefill_group_too_big [OF assms(1,2,4,5,6,7,8,9,10,11)])
  have df: "decode_seq w gd s did = Inl IndexError" for s
    by (rule decode_seq_too_big [OF assms(1,2,14,15,16,17,18)])
  have c4: "prepare_inputs w [gp] = Inl IndexError"
    by (rule prepare_inputs_single_prefill_error [OF pf])
  have c5: "\<exists>e. prepare_inputs w gs = Inl e"
    by (rule prepare_inputs_prefill_fails [OF assms(19)]) (simp add: pf)
  from assms(14) have "did \<in> fst ` set (seq_data gd)"
    by (metis map_of_SomeD fst_conv image_eqI)
  then have "\<exists>e. decode_group w s gd = Inl e" for s
    by (rule decode_group_seq_fails [OF assms(12,13)]) (simp add: df)
  then have c6: "\<exists>e. prepare_inputs w gs' = Inl e"
    by (rule prepare_inputs_decode_fails [OF assms(20)])
  from c1 pf df c4 c5 c6 scenario_a_result show ?thesis by blast
qed

text \<open>
  Scenario A and a decode sequence at positions 3 and 4 with the one-entry table \<open>[3]\<close>.
\<close>

theorem position_beyond_table_raises_witness:
  "compute_slot (Some 4) [7] 4 = Inl IndexError \<and>
   prefill_group worker_bs4 initial_locals scenario_a = Inl IndexError \<and>
   decode_seq worker_bs4 decode_one_block initial_locals 1 = Inl IndexError \<and>
   prepare_inputs worker_bs4 [scenario_a] = Inl IndexError \<and>
   (\<exists>e. prepare_inputs worker_bs4 [prompt_two_blocks, scenario_a] = Inl e) \<and>
   (\<exists>e. prepare_inputs worker_bs4 [prompt_two_blocks, decode_one_block] = Inl e)"
proof -
  have h1: "block_size worker_bs4 = Some 4" by (simp add: worker_bs4_def)
  have h2: "(4::int) \<noteq> 0" by simp
  have h3: "int (length [7::int]) \<le> 4 div 4" by simp
  have h4: "is_prompt scenario_a" by (simp add: scenario_a_def)
  have h5: "\<not> only_swap scenario_a" by (simp add: scenario_a_def)
  have h6: "seq_data scenario_a = (0, five_tokens) # []" by (simp add: scenario_a_def)
  have h7: "block_tables scenario_a = Some [(0, [7])]" by (simp add: scenario_a_def)
  have h8: "map_of [(0::int, [7::int])] 0 = Some [7]" by simp
  have h9: "(0::int) \<le> 4" by simp
  have h10: "4 < running_inflight_tokens five_tokens" by (simp add: five_tokens_def)
  have h11: "int (length [7::int]) \<le> 4 div 4" by simp
  have h12: "\<not> is_prompt decode_one_block" by (simp add: decode_one_block_def)
  have h13: "\<not> only_swap decode_one_block" by (simp add: decode_one_block_def)
  have h14: "map_of (seq_data decode_one_block) 1 = Some two_in_flight"
    by (simp add: decode_one_block_def)
  have h15: "block_tables decode_one_block = Some [(1, [3])]"
    by (simp add: decode_one_block_def)
  have h16: "map_of [(1::int, [3::int])] 1 = Some [3]" by simp
  have h17: "4 \<in> set (seq_positions two_in_flight)"
    by (simp add: seq_positions_def seq_start_idx_def two_in_flight_def py_range_def
        upt_conv_Cons)
  have h18: "int (length [3::int]) \<le> 4 div 4" by simp
  have h19: "scenario_a \<in> set [prompt_two_blocks, scenario_a]" by simp
  have h20: "decode_one_block \<in> set [prompt_two_blocks, decode_one_block]" by simp
  from position_beyond_table_raises
    [OF h1 h2 h3 h4 h5 h6 h7 h8 h9 h10 h11 h12 h13 h14 h15 h16 h17 h18 h19 h20,
      of initial_locals]
  show ?thesis by (simp add: h1)
qed

text \<open>
  Claim C4. In every non-empty assembled batch the token and position arrays have a
  length that is a multiple of 8, what is appended to reach it is zero (fewer than 8
  entries), and the tokens before it are the in-flight prompt tokens of every prefill group
  in order, followed by the in-flight tokens of every decode sequence in order. The
  \<^verbatim>\<open>seq_data\<close> dicts are association lists here, so their keys are distinct.
\<close>

theorem padded_arrays_hold_the_batch:
  assumes "prepare_inputs w gs = Inr (Some (toks, poss, md))"
    and "\<forall>g\<in>set gs. distinct (map fst (seq_data g))"
  shows "8 dvd length toks \<and> 8 dvd length poss \<and> batch_tokens gs \<noteq> [] \<and>
         toks = batch_tokens gs @
                  replicate (nat ((- int (length (batch_tokens gs))) mod 8)) 0 \<and>
         poss = batch_positions gs @
                  replicate (nat ((- int (length (batch_positions gs))) mod 8)) 0 \<and>
         take (length (batch_tokens gs)) toks = batch_tokens gs \<and>
         length toks < length (batch_tokens gs) + 8"
proof -
  from prepare_inputs_Some [OF assms(1)] obtain st1 st where
    p: "for_each (prefill_group w) gs initial_locals = Inr st1"
    and d: "for_each (decode_group w) gs st1 = Inr st"
    and ne: "input_tokens st \<noteq> []"
    and t: "toks = input_tokens st @
                    replicate (nat ((- int (length (input_tokens st))) mod 8)) 0"
    and q: "poss = input_positions st @
                    replicate (nat ((- int (length (input_positions st))) mod 8)) 0"
    by blast
  note r = passes_result [OF p d assms(2)]
  have a: "8 dvd length toks" using t by (simp add: pad_length_dvd)
  have b: "8 dvd length poss" using q by (simp add: pad_length_dvd)
  have c: "batch_tokens gs \<noteq> []" using ne r by simp
  have t': "toks = batch_tokens gs @
                  replicate (nat ((- int (length (batch_tokens gs))) mod 8)) 0"
    using t r by simp
  have q': "poss = batch_positions gs @
                  replicate (nat ((- int (length (batch_positions gs))) mod 8)) 0"
    using q r by simp
  have e: "take (length (batch_tokens gs)) toks = batch_tokens gs"
    by (subst t') simp
  have "length toks = length (batch_tokens gs) +
          nat ((- int (length (batch_tokens gs))) mod 8)"
    by (subst t') simp
  with pad_amount_less [of "length (batch_tokens gs)"]
  have f: "length toks < length (batch_tokens gs) + 8" by linarith
  from a b c t' q' e f show ?thesis by blast
qed

text \<open>The batch of a five-token prompt and a decode sequence with two tokens in flight.\<close>

theorem padded_arrays_hold_the_batch_witness:
  "prepare_inputs worker_bs4 mixed_batch =
     Inr (Some ([11, 12, 13, 14, 15, 24, 25, 0], [0, 1, 2, 3, 4, 3, 4, 0], mixed_batch_metadata)) \<and>
   8 dvd length [11, 12, 13, 14, 15, 24, 25, 0 :: int] \<and>
   batch_tokens mixed_batch = [11, 12, 13, 14, 15, 24, 25] \<and>
   batch_positions mixed_batch = [0, 1, 2, 3, 4, 3, 4] \<and>
   [11, 12, 13, 14, 15, 24, 25, 0] = batch_tokens mixed_batch @ replicate 1 0 \<and>
   [0, 1, 2, 3, 4, 3, 4, 0] = batch_positions mixed_batch @ replicate 1 0"
proof -
  have h2: "\<forall>g\<in>set mixed_batch. distinct (map fst (seq_data g))"
    by (simp add: mixed_batch_def prompt_two_blocks_def decode_two_blocks_def)
  have bt: "batch_tokens mixed_batch = [11, 12, 13, 14, 15, 24, 25]" by code_simp
  have bp: "batch_positions mixed_batch = [0, 1, 2, 3, 4, 3, 4]" by code_simp
  from padded_arrays_hold_the_batch [OF mixed_batch_result h2] mixed_batch_result bt bp
  show ?thesis by simp
qed

text \<open>
  Claim C10, as amended. In every non-empty assembled batch the slot mapping is returned
  unpadded with one entry per token forwarded, as counted by \<^verbatim>\<open>running_inflight_tokens\<close>.
  When the counters of every sequence are consistent (\<open>inflight_within_tokens\<close>: the tokens
  forwarded are among the tokens in flight, and those among the tokens of the sequence)
  this is the number of input tokens before padding, so the padded token array is longer
  by exactly the padding. Without block tables (profiling) every entry is the placeholder 0.
\<close>

theorem slot_mapping_one_entry_per_token:
  assumes "prepare_inputs w gs = Inr (Some (toks, poss, md))"
    and "\<forall>g\<in>set gs. distinct (map fst (seq_data g))"
  shows "length (im_slot_mapping md) =
           sum_list (map prefill_slot_count gs) + sum_list (map decode_slot_count gs) \<and>
         ((\<forall>g\<in>set gs. \<forall>(k, sdata)\<in>set (seq_data g). inflight_within_tokens sdata) \<longrightarrow>
            length (im_slot_mapping md) = length (batch_tokens gs) \<and>
            toks = batch_tokens gs @
                     replicate (nat ((- int (length (im_slot_mapping md))) mod 8)) 0 \<and>
            length toks =
              length (im_slot_mapping md) +
                nat ((- int (length (im_slot_mapping md))) mod 8)) \<and>
         ((\<forall>g\<in>set gs. block_tables g = None) \<longrightarrow>
            im_slot_mapping md = replicate (length (im_slot_mapping md)) 0)"
proof -
  let ?I = "\<lambda>s::'a locals. length (slot_mapping s) = length (input_tokens s)"
  let ?J = "\<lambda>s::'a locals. set (slot_mapping s) \<subseteq> {0}"
  from prepare_inputs_Some [OF assms(1)] obtain st1 st where
    p: "for_each (prefill_group w) gs initial_locals = Inr st1"
    and d: "for_each (decode_group w) gs st1 = Inr st"
    and t: "toks = input_tokens st @
                    replicate (nat ((- int (length (input_tokens st))) mod 8)) 0"
    and m: "im_slot_mapping md = slot_mapping st"
    by blast
  note r = passes_result [OF p d assms(2)]
  have cnt: "length (im_slot_mapping md) =
           sum_list (map prefill_slot_count gs) + sum_list (map decode_slot_count gs)"
    using passes_slot_count [OF p d assms(2)] m by simp
  have wf: "length (im_slot_mapping md) = length (batch_tokens gs) \<and>
            toks = batch_tokens gs @
                     replicate (nat ((- int (length (im_slot_mapping md))) mod 8)) 0 \<and>
            length toks =
              length (im_slot_mapping md) +
                nat ((- int (length (im_slot_mapping md))) mod 8)"
    if c: "\<forall>g\<in>set gs. \<forall>(k, sdata)\<in>set (seq_data g). inflight_within_tokens sdata"
  proof -
    have i1: "?I st1"
    proof (rule for_each_invariant [where I = ?I, OF _ _ p])
      show "?I initial_locals" by (simp add: initial_locals_def)
    next
      fix s x s'
      assume "x \<in> set gs" "?I s" "prefill_group w s x = Inr s'"
      then show "?I s'" using prefill_group_slots c by blast
    qed
    have i: "?I st"
    proof (rule for_each_invariant [where I = ?I, OF _ i1 d])
      fix s x s'
      assume "x \<in> set gs" "?I s" "decode_group w s x = Inr s'"
      then show "?I s'" using decode_group_slots c by blast
    qed
    have len: "length (im_slot_mapping md) = length (batch_tokens gs)"
      using i r m by simp
    have tk: "toks = batch_tokens gs @
                    replicate (nat ((- int (length (im_slot_mapping md))) mod 8)) 0"
      using t r len by simp
    have tl: "length toks =
             length (im_slot_mapping md) + nat ((- int (length (im_slot_mapping md))) mod 8)"
      by (subst tk) (simp add: len)
    from len tk tl show ?thesis by blast
  qed
  have ph: "im_slot_mapping md = replicate (length (im_slot_mapping md)) 0"
    if none: "\<forall>g\<in>set gs. block_tables g = None"
  proof -
    have j1: "?J st1"
    proof (rule for_each_invariant [where I = ?J, OF _ _ p])
      show "?J initial_locals" by (simp add: initial_locals_def)
    next
      fix s x s'
      assume "x \<in> set gs" "?J s" "prefill_group w s x = Inr s'"
      then show "?J s'" using prefill_group_placeholder none by blast
    qed
    have "?J st"
    proof (rule for_each_invariant [where I = ?J, OF _ j1 d])
      fix s x s'
      assume "x \<in> set gs" "?J s" "decode_group w s x = Inr s'"
      then show "?J s'" using decode_group_no_tables none by fastforce
    qed
    then have "slot_mapping st = replicate (length (slot_mapping st)) 0"
      by (simp add: replicate_length_same subset_iff)
    with m show ?thesis by simp
  qed
  from cnt wf ph show ?thesis by blast
qed

text \<open>
  The mixed batch (7 slots, 8 padded tokens) and a profiling group of three tokens
  (3 placeholder slots).
\<close>

theorem slot_mapping_one_entry_per_token_witness:
  "prepare_inputs worker_bs4 mixed_batch =
     Inr (Some ([11, 12, 13, 14, 15, 24, 25, 0], [0, 1, 2, 3, 4, 3, 4, 0], mixed_batch_metadata)) \<and>
   length (im_slot_mapping mixed_batch_metadata) = 7 \<and>
   sum_list (map prefill_slot_count mixed_batch) + sum_list (map decode_slot_count mixed_batch) = 7 \<and>
   length (batch_tokens mixed_batch) = 7 \<and>
   length [11, 12, 13, 14, 15, 24, 25, 0 :: int] = 7 + 1 \<and>
   prepare_inputs worker_unset [profiling_group] =
     Inr (Some ([0, 0, 0, 0, 0, 0, 0, 0], [0, 1, 2, 0, 0, 0, 0, 0], profiling_metadata)) \<and>
   im_slot_mapping profiling_metadata = replicate 3 0 \<and>
   length (batch_tokens [profiling_group]) = 3"
proof -
  have h2: "\<forall>g\<in>set mixed_batch. distinct (map fst (seq_data g))"
    by (simp add: mixed_batch_def prompt_two_blocks_def decode_two_blocks_def)
  have h3: "\<forall>g\<in>set mixed_batch. \<forall>(k, sdata)\<in>set (seq_data g). inflight_within_tokens sdata"
    by (simp add: mixed_batch_def prompt_two_blocks_def decode_two_blocks_def
        inflight_within_tokens_def five_tokens_def two_in_flight_def)
  have k2: "\<forall>g\<in>set [profiling_group]. distinct (map fst (seq_data g))"
    by (simp add: profiling_group_def)
  have k3: "\<forall>g\<in>set [profiling_group].
              \<forall>(k, sdata)\<in>set (seq_data g). inflight_within_tokens sdata"
    by (simp add: profiling_group_def inflight_within_tokens_def three_zeros_def)
  have k4: "\<forall>g\<in>set [profiling_group]. block_tables g = None"
    by (simp add: profiling_group_def)
  have m: "length (im_slot_mapping mixed_batch_metadata) = 7"
    by (simp add: mixed_batch_metadata_def)
  have n: "length (im_slot_mapping profiling_metadata) = 3"
    by (simp add: profiling_metadata_def)
  from slot_mapping_one_entry_per_token [OF mixed_batch_result h2]
    slot_mapping_one_entry_per_token [OF profiling_group_result k2] h3 k3 k4 m n
    mixed_batch_result profiling_group_result
  show ?thesis by simp
qed

text \<open>
  Against C10 as stated: a prompt of 5 tokens whose sequence has
  \<^verbatim>\<open>running_inflight_tokens = 7\<close> is assembled into a batch of 5 tokens and 7 slots; the
  slot loop runs over \<^verbatim>\<open>range(prompt_len)\<close>, the tokens are \<^verbatim>\<open>get_token_ids()[:prompt_len]\<close>.
\<close>

theorem more_slots_than_tokens_counterexample:
  "prepare_inputs worker_bs4 [overrun_prompt] =
     Inr (Some ([11, 12, 13, 14, 15, 0, 0, 0], [0, 1, 2, 3, 4, 0, 0, 0], overrun_metadata)) \<and>
   length (im_slot_mapping overrun_metadata) = 7 \<and>
   length (batch_tokens [overrun_prompt]) = 5"
  by code_simp

text \<open>
  Claim C5, as amended. With a sliding window set, the prefill pass applies no clamp: it
  computes what it computes without a window. Every decode sequence raises; when its
  lookups and its slots are in range, it is the assertion after the slot loop that raises
  (\<^verbatim>\<open>AssertionError\<close>), and a batch holding a decode group with such a sequence raises.
\<close>

theorem window_untouched_in_prefill_asserted_in_decode:
  fixes st :: "'sp locals" and gp gd g :: "'sp SequenceGroupMetadata"
  assumes "sliding_window w = Some sw"
    and "block_size w = Some b" and "0 < b"
    and "\<not> is_prompt gd" and "\<not> only_swap gd"
    and "map_of (seq_data gd) did = Some dsd"
    and "block_tables gd = Some dbts" and "map_of dbts did = Some td"
    and "0 < running_inflight_tokens dsd"
    and "\<forall>q\<in>set (seq_positions dsd). 0 \<le> q \<and> q div b < int (length td)"
    and "gd \<in> set gs"
  shows "prefill_group w st gp = prefill_group (w\<lparr>sliding_window := None\<rparr>) st gp \<and>
         for_each (prefill_group w) gs' st =
           for_each (prefill_group (w\<lparr>sliding_window := None\<rparr>)) gs' st \<and>
         (\<exists>e. decode_seq w g st seq_id = Inl e) \<and>
         decode_seq w gd st did = Inl AssertionError \<and>
         (\<exists>e. prepare_inputs w gs = Inl e)"
proof -
  have a: "prefill_group w s x = prefill_group (w\<lparr>sliding_window := None\<rparr>) s x"
    for s :: "'sp locals" and x
    by (simp add: prefill_group_ignores_window)
  have b: "for_each (prefill_group w) gs' st =
           for_each (prefill_group (w\<lparr>sliding_window := None\<rparr>)) gs' st"
    by (rule for_each_cong_body) (rule a)
  have c: "\<exists>e. decode_seq w g st seq_id = Inl e"
    by (rule decode_seq_window_raises [OF assms(1)])
  have d: "decode_seq w gd s did = Inl AssertionError" for s :: "'sp locals"
    by (rule decode_seq_window_asserts [OF assms(2,3,6,7,8,9,1,10)])
  from assms(6) have "did \<in> fst ` set (seq_data gd)"
    by (metis map_of_SomeD fst_conv image_eqI)
  then have "\<exists>e. decode_group w s gd = Inl e" for s
    by (rule decode_group_seq_fails [OF assms(4,5)]) (simp add: d)
  then have e: "\<exists>e. prepare_inputs w gs = Inl e"
    by (rule prepare_inputs_decode_fails [OF assms(11)])
  from a b c d e show ?thesis by blast
qed

text \<open>Window 2, block size 4: the five-token prompt and the decode sequence of the examples.\<close>

theorem window_untouched_in_prefill_asserted_in_decode_witness:
  "prefill_group worker_window2 initial_locals prompt_two_blocks =
     prefill_group worker_bs4 initial_locals prompt_two_blocks \<and>
   decode_seq worker_window2 decode_two_blocks initial_locals 1 = Inl AssertionError \<and>
   prepare_inputs worker_window2 [prompt_two_blocks, decode_two_blocks] = Inl AssertionError"
proof -
  have h1: "sliding_window worker_window2 = Some 2" by (simp add: worker_window2_def)
  have h2: "block_size worker_window2 = Some 4" by (simp add: worker_window2_def)
  have h3: "(0::int) < 4" by simp
  have h4: "\<not> is_prompt decode_two_blocks" by (simp add: decode_two_blocks_def)
  have h5: "\<not> only_swap decode_two_blocks" by (simp add: decode_two_blocks_def)
  have h6: "map_of (seq_data decode_two_blocks) 1 = Some two_in_flight"
    by (simp add: decode_two_blocks_def)
  have h7: "block_tables decode_two_blocks = Some [(1, [3, 5])]"
    by (simp add: decode_two_blocks_def)
  have h8: "map_of [(1::int, [3, 5 :: int])] 1 = Some [3, 5]" by simp
  have h9: "0 < running_inflight_tokens two_in_flight" by (simp add: two_in_flight_def)
  have h10: "\<forall>q\<in>set (seq_positions two_in_flight). 0 \<le> q \<and> q div 4 < int (length [3, 5 :: int])"
    by (simp add: seq_positions_def seq_start_idx_def two_in_flight_def py_range_def
        upt_conv_Cons)
  have h11: "decode_two_blocks \<in> set [prompt_two_blocks, decode_two_blocks]" by simp
  have w: "worker_window2\<lparr>sliding_window := None\<rparr> = worker_bs4"
    by (simp add: worker_window2_def worker_bs4_def)
  have r: "prepare_inputs worker_window2 [prompt_two_blocks, decode_two_blocks] =
             Inl AssertionError"
    by code_simp
  from window_untouched_in_prefill_asserted_in_decode
    [OF h1 h2 h3 h4 h5 h6 h7 h8 h9 h10 h11,
      where st = initial_locals and gp = prompt_two_blocks]
    w r
  show ?thesis by simp
qed

text \<open>
  Against C5 as stated: with window 2 the prompt positions 2, 3 and 4 (history lengths 3,
  4 and 5) get the slots of the contract at the unclamped positions, not those of a
  history length clamped to 2.
\<close>

theorem prefill_not_clamped_counterexample:
  "sliding_window worker_window2 = Some 2 \<and>
   prepare_inputs worker_window2 [prompt_two_blocks] =
     Inr (Some ([11, 12, 13, 14, 15, 0, 0, 0], [0, 1, 2, 3, 4, 0, 0, 0],
                windowed_prompt_metadata)) \<and>
   im_slot_mapping windowed_prompt_metadata =
     [spec_slot 0 [7, 9] 4, spec_slot 1 [7, 9] 4, spec_slot 2 [7, 9] 4,
      spec_slot 3 [7, 9] 4, spec_slot 4 [7, 9] 4] \<and>
   im_slot_mapping windowed_prompt_metadata \<noteq>
     [spec_clamped_slot 2 0 [7, 9] 4, spec_clamped_slot 2 1 [7, 9] 4,
      spec_clamped_slot 2 2 [7, 9] 4, spec_clamped_slot 2 3 [7, 9] 4,
      spec_clamped_slot 2 4 [7, 9] 4]"
  by code_simp

text \<open>
  Claim C9, as amended. When no copy is requested and batch assembly returns the empty
  batch, which it does for an empty list, for swap-only groups and for prompt groups that
  forward no token, \<^verbatim>\<open>execute_model\<close> issues the swap-out if there is one, then the swap-in
  if there is one, waits on every completion signal if it issued anything, and returns the
  empty result; the model is not called.
\<close>

theorem empty_step_swaps_out_then_in_and_waits:
  assumes "blocks_to_copy = []"
    and "prepare_inputs w gs = Inr None"
    and "\<forall>g\<in>set gs'. no_tokens_group g"
  shows "execute_model w model gs blocks_to_swap_in blocks_to_swap_out blocks_to_copy =
           (Inr EmptyOutput,
            (if blocks_to_swap_out = [] then [] else [SwapOut blocks_to_swap_out]) @
            (if blocks_to_swap_in = [] then [] else [SwapIn blocks_to_swap_in]) @
            (if blocks_to_swap_out = [] \<and> blocks_to_swap_in = [] then []
             else map Wait (cache_events w))) \<and>
         prepare_inputs w gs' = Inr None \<and>
         execute_model w model gs' blocks_to_swap_in blocks_to_swap_out blocks_to_copy =
           (Inr EmptyOutput,
            (if blocks_to_swap_out = [] then [] else [SwapOut blocks_to_swap_out]) @
            (if blocks_to_swap_in = [] then [] else [SwapIn blocks_to_swap_in]) @
            (if blocks_to_swap_out = [] \<and> blocks_to_swap_in = [] then []
             else map Wait (cache_events w)))"
proof -
  have e: "execute_model w model l blocks_to_swap_in blocks_to_swap_out blocks_to_copy =
           (Inr EmptyOutput,
            (if blocks_to_swap_out = [] then [] else [SwapOut blocks_to_swap_out]) @
            (if blocks_to_swap_in = [] then [] else [SwapIn blocks_to_swap_in]) @
            (if blocks_to_swap_out = [] \<and> blocks_to_swap_in = [] then []
             else map Wait (cache_events w)))"
    if "prepare_inputs w l = Inr None" for l
    using that assms(1) by (simp add: execute_model_def Let_def)
  note n = prepare_inputs_no_tokens [OF assms(3), of w]
  from e [OF assms(2)] n e [OF n] show ?thesis by blast
qed

text \<open>An empty list, and a step of an idle prompt group and a swap-only group.\<close>

theorem empty_step_swaps_out_then_in_and_waits_witness:
  "execute_model worker_bs4 unit_model [] [(3, 4)] [(1, 2)] [] =
     (Inr EmptyOutput, [SwapOut [(1, 2)], SwapIn [(3, 4)], Wait 0, Wait 1]) \<and>
   prepare_inputs worker_bs4 [idle_prompt, swap_only_group] = Inr None \<and>
   execute_model worker_bs4 unit_model [idle_prompt, swap_only_group] [(3, 4)] [(1, 2)] [] =
     (Inr EmptyOutput, [SwapOut [(1, 2)], SwapIn [(3, 4)], Wait 0, Wait 1])"
proof -
  have h1: "([] :: (int \<times> int list) list) = []" by simp
  have h2: "prepare_inputs worker_bs4 ([] :: unit SequenceGroupMetadata list) = Inr None"
    by (simp add: prepare_inputs_def)
  have h3: "\<forall>g\<in>set [idle_prompt, swap_only_group]. no_tokens_group g"
    by (simp add: no_tokens_group_def idle_prompt_def swap_only_group_def idle_sequence_def)
  from empty_step_swaps_out_then_in_and_waits
    [OF h1 h2 h3, of unit_model "[(3, 4)]" "[(1, 2)]"]
  show ?thesis by (simp add: worker_bs4_def)
qed

text \<open>
  Against C9 as stated: a decode sequence that forwards no token makes \<^verbatim>\<open>hists[-1]\<close> raise
  \<^verbatim>\<open>IndexError\<close> before any swap is issued, and a non-empty \<^verbatim>\<open>blocks_to_copy\<close> raises
  \<^verbatim>\<open>ValueError\<close> before the batch is assembled.
\<close>

theorem empty_step_counterexample:
  "\<not> is_prompt idle_decode \<and>
   running_inflight_tokens idle_sequence = 0 \<and>
   execute_model worker_bs4 unit_model [idle_decode] [(3, 4)] [(1, 2)] [] =
     (Inl IndexError, []) \<and>
   execute_model worker_bs4 unit_model [] [(3, 4)] [(1, 2)] [(5, [6])] =
     (Inl ValueError, [])"
  by code_simp

text \<open>
  Claim C8. The profiler builds exactly \<^verbatim>\<open>max_num_seqs\<close> groups of one synthetic sequence
  each, under the sequence ids \<open>0, 1, ...\<close>; the prompts of these sequences have lengths
  that sum to exactly \<^verbatim>\<open>max_num_batched_tokens\<close>; the first
  \<^verbatim>\<open>max_num_batched_tokens % max_num_seqs\<close> prompts have one token more than the others, so
  any two lengths differ by at most one; 4 sequences and 10 tokens give \<open>[3, 3, 2, 2]\<close>
  (scenario C). The two limits are a positive count and a non-negative budget.
\<close>

theorem profile_seqs_split_the_budget:
  assumes "0 < max_num_seqs" and "0 \<le> max_num_batched_tokens"
  shows "length (profile_seqs fresh sampling max_num_batched_tokens max_num_seqs) =
           nat max_num_seqs \<and>
         map (\<lambda>g. map fst (seq_data g))
           (profile_seqs fresh sampling max_num_batched_tokens max_num_seqs) =
           map (\<lambda>group_id. [group_id]) (py_range max_num_seqs) \<and>
         length (synthetic_prompts
                   (profile_seqs fresh sampling max_num_batched_tokens max_num_seqs)) =
           nat max_num_seqs \<and>
         (\<Sum>p\<leftarrow>synthetic_prompts
                 (profile_seqs fresh sampling max_num_batched_tokens max_num_seqs).
            int (length p)) = max_num_batched_tokens \<and>
         (\<forall>i<nat max_num_seqs.
            synthetic_prompts
              (profile_seqs fresh sampling max_num_batched_tokens max_num_seqs) ! i =
              replicate
                (nat (max_num_batched_tokens div max_num_seqs +
                      (if int i < max_num_batched_tokens mod max_num_seqs then 1 else 0))) 0) \<and>
         (\<forall>p\<in>set (synthetic_prompts
                      (profile_seqs fresh sampling max_num_batched_tokens max_num_seqs)).
            \<forall>q\<in>set (synthetic_prompts
                        (profile_seqs fresh sampling max_num_batched_tokens max_num_seqs)).
              length p \<le> length q + 1) \<and>
         map length (synthetic_prompts (profile_seqs fresh sampling 10 4)) = [3, 3, 2, 2]"
proof -
  let ?t = max_num_batched_tokens and ?s = max_num_seqs
  let ?ps = "synthetic_prompts (profile_seqs fresh sampling ?t ?s)"
  have len: "length ?ps = nat ?s"
    by (simp add: synthetic_prompts_profile_seqs py_range_def)
  have nth: "?ps ! i = replicate (nat (?t div ?s + (if int i < ?t mod ?s then 1 else 0))) 0"
    if "i < nat ?s" for i
    using that by (simp add: nth_synthetic_prompts) (simp add: profile_seq_len_def)
  have lnth: "int (length (?ps ! i)) = ?t div ?s + (if int i < ?t mod ?s then 1 else 0)"
    if "i < nat ?s" for i
    using that profile_seq_len_nonneg [OF assms, of "int i"]
    by (simp add: nth_synthetic_prompts) (simp add: profile_seq_len_def)
  have near: "length p \<le> length q + 1" if "p \<in> set ?ps" "q \<in> set ?ps" for p q
  proof -
    from that obtain i j where
      i: "i < nat ?s" "p = ?ps ! i" and j: "j < nat ?s" "q = ?ps ! j"
      by (auto simp: in_set_conv_nth len)
    from lnth [OF i(1)] lnth [OF j(1)] i(2) j(2)
    have "int (length p) \<le> int (length q) + 1" by (simp split: if_splits)
    then show ?thesis by linarith
  qed
  have ids: "map (\<lambda>g. map fst (seq_data g)) (profile_seqs fresh sampling ?t ?s) =
               map (\<lambda>group_id. [group_id]) (py_range ?s)"
    by (simp add: profile_seqs_def Let_def comp_def)
  have ex: "map length (synthetic_prompts (profile_seqs fresh sampling 10 4)) = [3, 3, 2, 2]"
    by (simp add: synthetic_prompts_profile_seqs py_range_def profile_seq_len_def
        upt_conv_Cons)
  show ?thesis
  proof (intro conjI allI impI ballI)
    show "length (profile_seqs fresh sampling ?t ?s) = nat ?s"
      by (rule length_profile_seqs)
    show "map (\<lambda>g. map fst (seq_data g)) (profile_seqs fresh sampling ?t ?s) =
            map (\<lambda>group_id. [group_id]) (py_range ?s)"
      by (rule ids)
    show "length ?ps = nat ?s" by (rule len)
    show "(\<Sum>p\<leftarrow>?ps. int (length p)) = ?t"
      by (rule sum_length_synthetic_prompts [OF assms])
    show "?ps ! i = replicate (nat (?t div ?s + (if int i < ?t mod ?s then 1 else 0))) 0"
      if "i < nat ?s" for i
      by (rule nth [OF that])
    show "length p \<le> length q + 1" if "p \<in> set ?ps" "q \<in> set ?ps" for p q
      by (rule near [OF that])
    show "map length (synthetic_prompts (profile_seqs fresh sampling 10 4)) = [3, 3, 2, 2]"
      by (rule ex)
  qed
qed

text \<open>Scenario C: 4 sequences for 10 tokens.\<close>

theorem profile_seqs_split_the_budget_witness:
  "length (profile_seqs fresh_prompt_sequence () 10 4) = 4 \<and>
   map (\<lambda>g. map fst (seq_data g)) (profile_seqs fresh_prompt_sequence () 10 4) =
     [[0], [1], [2], [3]] \<and>
   synthetic_prompts (profile_seqs fresh_prompt_sequence () 10 4) =
     [[0, 0, 0], [0, 0, 0], [0, 0], [0, 0]] \<and>
   (\<Sum>p\<leftarrow>synthetic_prompts (profile_seqs fresh_prompt_sequence () 10 4). int (length p)) = 10"
proof -
  have h1: "(0::int) < 4" by simp
  have h2: "(0::int) \<le> 10" by simp
  have v: "synthetic_prompts (profile_seqs fresh_prompt_sequence () 10 4) =
             [[0, 0, 0], [0, 0, 0], [0, 0], [0, 0]]"
    by code_simp
  from profile_seqs_split_the_budget [OF h1 h2, of fresh_prompt_sequence "()"] v
  show ?thesis by (simp add: py_range_def upt_conv_Cons)
qed

text \<open>
  Claim C3, as amended. When some sequence id occurs in the \<^verbatim>\<open>seq_data\<close> of two different
  groups that are not swap-only, the loop that collects the sequence data raises
  \<^verbatim>\<open>AssertionError\<close>, so batch assembly never returns a batch: it raises what one of the two
  passes raised, returns the empty batch when the passes collected no token, raises the
  conversion error when a list does not fit its tensor (these three stand before the
  check), and raises \<^verbatim>\<open>AssertionError\<close> otherwise.
\<close>

theorem duplicate_sequence_id_never_merged:
  assumes "\<not> only_swap g1" and "\<not> only_swap g2"
    and "k \<in> fst ` set (seq_data g1)" and "k \<in> fst ` set (seq_data g2)"
  shows "for_each collect_seq_data (pre @ g1 # mid @ g2 # post) [] = Inl AssertionError \<and>
         prepare_inputs w (pre @ g1 # mid @ g2 # post) =
           (case run_passes w (pre @ g1 # mid @ g2 # post) of
              Inl e \<Rightarrow> Inl e
            | Inr st \<Rightarrow>
                if input_tokens st = [] then Inr None
                else if \<not> tensors_fit st then Inl TensorConversionError
                else Inl AssertionError) \<and>
         prepare_inputs w (pre @ g1 # mid @ g2 # post) \<noteq> Inr (Some batch)"
proof -
  let ?gs = "pre @ g1 # mid @ g2 # post"
  note c = collect_duplicate [OF assms, of pre mid post "[]"]
  have e: "prepare_inputs w ?gs =
           (case run_passes w ?gs of
              Inl e \<Rightarrow> Inl e
            | Inr st \<Rightarrow>
                if input_tokens st = [] then Inr None
                else if \<not> tensors_fit st then Inl TensorConversionError
                else Inl AssertionError)"
    by (simp add: prepare_inputs_passes c split: sum.splits)
  then have "prepare_inputs w ?gs \<noteq> Inr (Some batch)"
    by (simp split: sum.splits if_splits)
  with c e show ?thesis by blast
qed

text \<open>
  Sequence 0 in the first and the third group of a step with tokens; sequence 0 twice
  with a token that does not fit 64 bits.
\<close>

theorem duplicate_sequence_id_never_merged_witness:
  "for_each collect_seq_data [prompt_two_blocks, decode_two_blocks, prompt_two_blocks] [] =
     Inl AssertionError \<and>
   prepare_inputs worker_bs4 [prompt_two_blocks, decode_two_blocks, prompt_two_blocks] =
     Inl AssertionError \<and>
   prepare_inputs worker_bs4 [wide_token_prompt, wide_token_prompt] =
     Inl TensorConversionError"
proof -
  have h1: "\<not> only_swap prompt_two_blocks" by (simp add: prompt_two_blocks_def)
  have h3: "0 \<in> fst ` set (seq_data prompt_two_blocks)" by (simp add: prompt_two_blocks_def)
  have k1: "\<not> only_swap wide_token_prompt" by (simp add: wide_token_prompt_def)
  have k3: "0 \<in> fst ` set (seq_data wide_token_prompt)" by (simp add: wide_token_prompt_def)
  have r: "prepare_inputs worker_bs4 [prompt_two_blocks, decode_two_blocks, prompt_two_blocks] =
             Inl AssertionError"
    by code_simp
  have q: "prepare_inputs worker_bs4 [wide_token_prompt, wide_token_prompt] =
             Inl TensorConversionError"
    by code_simp
  from duplicate_sequence_id_never_merged
    [OF h1 h1 h3 h3, of "[]" "[decode_two_blocks]" "[]" worker_bs4]
    duplicate_sequence_id_never_merged
    [OF k1 k1 k3 k3, of "[]" "[]" "[]" worker_bs4] r q
  show ?thesis by simp
qed

text \<open>
  Against C3 as stated: two prompt groups that both hold sequence 0 and forward no token.
  The function returns \<^verbatim>\<open>None, None, None\<close> at \<^verbatim>\<open>if not input_tokens\<close> and raises nothing.
\<close>

theorem duplicate_in_empty_batch_counterexample:
  "\<not> only_swap idle_prompt \<and> 0 \<in> fst ` set (seq_data idle_prompt) \<and>
   prepare_inputs worker_bs4 [idle_prompt, idle_prompt] = Inr None"
  by code_simp

text \<open>
  Claim C6. A prompt group whose \<^verbatim>\<open>seq_data\<close> holds more than one sequence should make batch
  assembly raise; the code does not. At the prompt group below, with the sequences 0 and 1,
  the prefill pass reads sequence 0 only (\<^verbatim>\<open>seq_ids[0]\<close>, under the comment
  \<^verbatim>\<open>TODO: fix n > 1 case\<close>), the assertion \<^verbatim>\<open>assume n = 1 for now\<close> counts one flag and one
  group and passes, and a batch with the tokens and slots of sequence 0 is returned. The
  same assertion does stop a decode group with two sequences: it counts two flags for one
  group.
\<close>

theorem multi_sequence_prompt_assembled:
  "is_prompt two_seq_prompt \<and> \<not> only_swap two_seq_prompt \<and>
   map fst (seq_data two_seq_prompt) = [0, 1] \<and>
   prepare_inputs worker_bs4 [two_seq_prompt] =
     Inr (Some ([11, 12, 13, 14, 15, 0, 0, 0], [0, 1, 2, 3, 4, 0, 0, 0],
                two_seq_prompt_metadata)) \<and>
   \<not> is_prompt two_seq_decode \<and> map fst (seq_data two_seq_decode) = [1, 2] \<and>
   prepare_inputs worker_bs4 [two_seq_decode] = Inl AssertionError"
  by code_simp




end
